theory Spec2Isabelle
  imports Complex_Main "HOL-Library.Word"
begin

section \<open>JavaScript numbers\<close>

text \<open>
  The program computes with JavaScript numbers, modelled in two layers. This section is the
  arithmetic before rounding: a finite number is the real it denotes, and the three special
  values that overflow and division by zero produce follow the IEEE 754 rules. The section on
  binary64 rounding adds the rounding of each result, and the fit transform is given in both
  readings. There is one zero, read as the positive one: the program only divides by
  differences \<open>a - b\<close>, which are \<open>+0\<close> when \<open>a\<close> and \<open>b\<close> are equal finite numbers.
\<close>

datatype jsnum = Fin real | PInf | NInf | NaN

fun js_add :: "jsnum \<Rightarrow> jsnum \<Rightarrow> jsnum" where
  "js_add (Fin a) (Fin b) = Fin (a + b)"
| "js_add NaN _ = NaN"
| "js_add _ NaN = NaN"
| "js_add PInf NInf = NaN"
| "js_add NInf PInf = NaN"
| "js_add PInf _ = PInf"
| "js_add NInf _ = NInf"
| "js_add (Fin a) PInf = PInf"
| "js_add (Fin a) NInf = NInf"

fun js_sub :: "jsnum \<Rightarrow> jsnum \<Rightarrow> jsnum" where
  "js_sub (Fin a) (Fin b) = Fin (a - b)"
| "js_sub NaN _ = NaN"
| "js_sub _ NaN = NaN"
| "js_sub PInf PInf = NaN"
| "js_sub NInf NInf = NaN"
| "js_sub PInf _ = PInf"
| "js_sub NInf _ = NInf"
| "js_sub (Fin a) PInf = NInf"
| "js_sub (Fin a) NInf = PInf"

fun js_mul :: "jsnum \<Rightarrow> jsnum \<Rightarrow> jsnum" where
  "js_mul (Fin a) (Fin b) = Fin (a * b)"
| "js_mul NaN _ = NaN"
| "js_mul _ NaN = NaN"
| "js_mul PInf PInf = PInf"
| "js_mul PInf NInf = NInf"
| "js_mul NInf PInf = NInf"
| "js_mul NInf NInf = PInf"
| "js_mul PInf (Fin b) = (if b = 0 then NaN else if 0 < b then PInf else NInf)"
| "js_mul NInf (Fin b) = (if b = 0 then NaN else if 0 < b then NInf else PInf)"
| "js_mul (Fin a) PInf = (if a = 0 then NaN else if 0 < a then PInf else NInf)"
| "js_mul (Fin a) NInf = (if a = 0 then NaN else if 0 < a then NInf else PInf)"

fun js_div :: "jsnum \<Rightarrow> jsnum \<Rightarrow> jsnum" where
  "js_div (Fin a) (Fin b) =
     (if b = 0 then (if a = 0 then NaN else if 0 < a then PInf else NInf) else Fin (a / b))"
| "js_div NaN _ = NaN"
| "js_div _ NaN = NaN"
| "js_div (Fin a) PInf = Fin 0"
| "js_div (Fin a) NInf = Fin 0"
| "js_div PInf (Fin b) = (if b < 0 then NInf else PInf)"
| "js_div NInf (Fin b) = (if b < 0 then PInf else NInf)"
| "js_div PInf _ = NaN"
| "js_div NInf _ = NaN"

text \<open>The comparison \<open>x > y\<close>; it is false as soon as one side is \<open>NaN\<close>.\<close>

fun js_gt :: "jsnum \<Rightarrow> jsnum \<Rightarrow> bool" where
  "js_gt (Fin a) (Fin b) = (b < a)"
| "js_gt NaN _ = False"
| "js_gt _ NaN = False"
| "js_gt PInf PInf = False"
| "js_gt PInf _ = True"
| "js_gt NInf _ = False"
| "js_gt (Fin a) PInf = False"
| "js_gt (Fin a) NInf = True"

section \<open>The fit transform (\<open>generateSymbolSvg\<close>, lines 184 to 205)\<close>

text \<open>
  The bounding box that opentype.js returns has the fields \<open>x1\<close>, \<open>y1\<close>, \<open>x2\<close>, \<open>y2\<close>
  (the spec's minX, minY, maxX, maxY). Each local constant of the source is one definition.
\<close>

record BoundingBox =
  x1 :: jsnum
  y1 :: jsnum
  x2 :: jsnum
  y2 :: jsnum

record GenerateSymbolOptions =
  fontSize :: jsnum
  padding :: jsnum

text \<open>
  A bounding box with the finite coordinates \<open>x1 = a\<close>, \<open>y1 = b\<close>, \<open>x2 = c\<close>, \<open>y2 = d\<close>, and
  the options with a finite canvas size (the \<open>fontSize\<close> of the source) and padding.
\<close>

definition box :: "real \<Rightarrow> real \<Rightarrow> real \<Rightarrow> real \<Rightarrow> BoundingBox" where
  "box a b c d = \<lparr>x1 = Fin a, y1 = Fin b, x2 = Fin c, y2 = Fin d\<rparr>"

definition canvas :: "real \<Rightarrow> real \<Rightarrow> GenerateSymbolOptions" where
  "canvas s p = \<lparr>fontSize = Fin s, padding = Fin p\<rparr>"

definition symbolWidth :: "BoundingBox \<Rightarrow> jsnum" where
  "symbolWidth bbox = js_sub (x2 bbox) (x1 bbox)"

definition symbolHeight :: "BoundingBox \<Rightarrow> jsnum" where
  "symbolHeight bbox = js_sub (y2 bbox) (y1 bbox)"

definition availableWidth :: "GenerateSymbolOptions \<Rightarrow> jsnum" where
  "availableWidth options = js_sub (fontSize options) (js_mul (padding options) (Fin 2))"

definition availableHeight :: "GenerateSymbolOptions \<Rightarrow> jsnum" where
  "availableHeight options = js_sub (fontSize options) (js_mul (padding options) (Fin 2))"

definition scale :: "BoundingBox \<Rightarrow> GenerateSymbolOptions \<Rightarrow> jsnum" where
  "scale bbox options =
     (if js_gt (js_div (symbolWidth bbox) (availableWidth options))
               (js_div (symbolHeight bbox) (availableHeight options))
      then js_div (availableWidth options) (symbolWidth bbox)
      else js_div (availableHeight options) (symbolHeight bbox))"

definition scaledWidth :: "BoundingBox \<Rightarrow> GenerateSymbolOptions \<Rightarrow> jsnum" where
  "scaledWidth bbox options = js_mul (symbolWidth bbox) (scale bbox options)"

definition scaledHeight :: "BoundingBox \<Rightarrow> GenerateSymbolOptions \<Rightarrow> jsnum" where
  "scaledHeight bbox options = js_mul (symbolHeight bbox) (scale bbox options)"

definition translateX :: "BoundingBox \<Rightarrow> GenerateSymbolOptions \<Rightarrow> jsnum" where
  "translateX bbox options =
     js_sub (js_div (js_sub (fontSize options) (scaledWidth bbox options)) (Fin 2))
            (js_mul (x1 bbox) (scale bbox options))"

definition translateY :: "BoundingBox \<Rightarrow> GenerateSymbolOptions \<Rightarrow> jsnum" where
  "translateY bbox options =
     js_sub (js_div (js_sub (fontSize options) (scaledHeight bbox options)) (Fin 2))
            (js_mul (y1 bbox) (scale bbox options))"

definition transformMatrix :: "BoundingBox \<Rightarrow> GenerateSymbolOptions \<Rightarrow> jsnum list" where
  "transformMatrix bbox options =
     [scale bbox options, Fin 0, Fin 0, scale bbox options,
      translateX bbox options, translateY bbox options]"

text \<open>
  \<open>applyTransformToPoint\<close> of the test suite (index.test.ts, lines 96 to 103): the matrix
  \<open>[a, b, c, d, e, f]\<close> sends \<open>(x, y)\<close> to \<open>(a x + c y + e, b x + d y + f)\<close>. An entry
  missing from a shorter array is \<open>undefined\<close>, which arithmetic turns into \<open>NaN\<close>.
\<close>

definition entry :: "jsnum list \<Rightarrow> nat \<Rightarrow> jsnum" where
  "entry matrix i = (if i < length matrix then matrix ! i else NaN)"

definition applyTransformToPoint :: "jsnum \<Rightarrow> jsnum \<Rightarrow> jsnum list \<Rightarrow> jsnum \<times> jsnum" where
  "applyTransformToPoint x y matrix =
     (js_add (js_add (js_mul (entry matrix 0) x) (js_mul (entry matrix 2) y)) (entry matrix 4),
      js_add (js_add (js_mul (entry matrix 1) x) (js_mul (entry matrix 3) y)) (entry matrix 5))"

section \<open>Binary64 rounding\<close>

text \<open>
  A JavaScript number is an IEEE 754 binary64 value, and every operation rounds its exact
  result to the nearest one, ties to the even significand. \<open>b64\<close> is that rounding, for any
  real: the exponent \<open>e\<close> of \<open>x\<close> (with \<open>2^e \<le> |x| < 2^(e+1)\<close>, and never below \<open>-1022\<close>, which
  gives the subnormal numbers), the unit in the last place \<open>2^(e-52)\<close>, the nearest multiple
  of it, and an infinity when that multiple reaches \<open>2^1024\<close>. The sign of a zero result is
  not kept; no statement below divides by a zero.
\<close>

definition pow2 :: "int \<Rightarrow> real" where
  "pow2 e = (if 0 \<le> e then 2 ^ nat e else 1 / 2 ^ nat (- e))"

text \<open>
  The exponent is found by halving or doubling, at most 2200 times: enough for every
  \<open>x\<close> that is neither rounded to an infinity nor below the least subnormal number.
\<close>

fun expo_aux :: "nat \<Rightarrow> real \<Rightarrow> int" where
  "expo_aux 0 x = 0"
| "expo_aux (Suc n) x =
     (if 2 \<le> x then expo_aux n (x / 2) + 1
      else if x < 1 then expo_aux n (x * 2) - 1
      else 0)"

definition expo :: "real \<Rightarrow> int" where
  "expo x = expo_aux 2200 \<bar>x\<bar>"

definition roundHalfEven :: "real \<Rightarrow> int" where
  "roundHalfEven y =
     (let f = \<lfloor>y\<rfloor>; d = y - of_int f in
      if d < 1 / 2 then f
      else if 1 / 2 < d then f + 1
      else if even f then f else f + 1)"

definition b64 :: "real \<Rightarrow> jsnum" where
  "b64 x =
     (let e = max (expo x) (- 1022);
          ulp = pow2 (e - 52);
          r = of_int (roundHalfEven (x / ulp)) * ulp in
      if pow2 1024 \<le> \<bar>r\<bar> then (if 0 < x then PInf else NInf) else Fin r)"

fun rnd :: "jsnum \<Rightarrow> jsnum" where
  "rnd (Fin a) = b64 a"
| "rnd x = x"

text \<open>The four operations of the program as JavaScript computes them.\<close>

definition add64 :: "jsnum \<Rightarrow> jsnum \<Rightarrow> jsnum" where
  "add64 x y = rnd (js_add x y)"

definition sub64 :: "jsnum \<Rightarrow> jsnum \<Rightarrow> jsnum" where
  "sub64 x y = rnd (js_sub x y)"

definition mul64 :: "jsnum \<Rightarrow> jsnum \<Rightarrow> jsnum" where
  "mul64 x y = rnd (js_mul x y)"

definition div64 :: "jsnum \<Rightarrow> jsnum \<Rightarrow> jsnum" where
  "div64 x y = rnd (js_div x y)"

section \<open>The fit transform in binary64 (\<open>generateSymbolSvg\<close>, lines 184 to 205)\<close>

text \<open>
  The same lines of the source, each operation rounded. The properties that depend on the
  rounding are stated on these definitions.
\<close>

definition symbolWidth64 :: "BoundingBox \<Rightarrow> jsnum" where
  "symbolWidth64 bbox = sub64 (x2 bbox) (x1 bbox)"

definition symbolHeight64 :: "BoundingBox \<Rightarrow> jsnum" where
  "symbolHeight64 bbox = sub64 (y2 bbox) (y1 bbox)"

definition availableWidth64 :: "GenerateSymbolOptions \<Rightarrow> jsnum" where
  "availableWidth64 options = sub64 (fontSize options) (mul64 (padding options) (Fin 2))"

definition availableHeight64 :: "GenerateSymbolOptions \<Rightarrow> jsnum" where
  "availableHeight64 options = sub64 (fontSize options) (mul64 (padding options) (Fin 2))"

definition scale64 :: "BoundingBox \<Rightarrow> GenerateSymbolOptions \<Rightarrow> jsnum" where
  "scale64 bbox options =
     (if js_gt (div64 (symbolWidth64 bbox) (availableWidth64 options))
               (div64 (symbolHeight64 bbox) (availableHeight64 options))
      then div64 (availableWidth64 options) (symbolWidth64 bbox)
      else div64 (availableHeight64 options) (symbolHeight64 bbox))"

definition scaledWidth64 :: "BoundingBox \<Rightarrow> GenerateSymbolOptions \<Rightarrow> jsnum" where
  "scaledWidth64 bbox options = mul64 (symbolWidth64 bbox) (scale64 bbox options)"

definition scaledHeight64 :: "BoundingBox \<Rightarrow> GenerateSymbolOptions \<Rightarrow> jsnum" where
  "scaledHeight64 bbox options = mul64 (symbolHeight64 bbox) (scale64 bbox options)"

definition translateX64 :: "BoundingBox \<Rightarrow> GenerateSymbolOptions \<Rightarrow> jsnum" where
  "translateX64 bbox options =
     sub64 (div64 (sub64 (fontSize options) (scaledWidth64 bbox options)) (Fin 2))
           (mul64 (x1 bbox) (scale64 bbox options))"

definition translateY64 :: "BoundingBox \<Rightarrow> GenerateSymbolOptions \<Rightarrow> jsnum" where
  "translateY64 bbox options =
     sub64 (div64 (sub64 (fontSize options) (scaledHeight64 bbox options)) (Fin 2))
           (mul64 (y1 bbox) (scale64 bbox options))"

definition transformMatrix64 :: "BoundingBox \<Rightarrow> GenerateSymbolOptions \<Rightarrow> jsnum list" where
  "transformMatrix64 bbox options =
     [scale64 bbox options, Fin 0, Fin 0, scale64 bbox options,
      translateX64 bbox options, translateY64 bbox options]"


section \<open>Strings\<close>

text \<open>
  A JavaScript string is a sequence of UTF-16 code units. \<open>js\<close> embeds an ASCII literal.
\<close>

type_synonym jsstring = "16 word list"

definition js :: "string \<Rightarrow> jsstring" where
  "js s = map of_char s"

definition isAsciiUpper :: "16 word \<Rightarrow> bool" where
  "isAsciiUpper c = (0x41 \<le> c \<and> c \<le> 0x5A)"

definition isAsciiLower :: "16 word \<Rightarrow> bool" where
  "isAsciiLower c = (0x61 \<le> c \<and> c \<le> 0x7A)"

definition isAsciiDigit :: "16 word \<Rightarrow> bool" where
  "isAsciiDigit c = (0x30 \<le> c \<and> c \<le> 0x39)"

text \<open>
  \<open>String.prototype.toLowerCase\<close> on the ASCII range: \<open>A\<close> to \<open>Z\<close> become \<open>a\<close> to
  \<open>z\<close>. Code units above 127 are left as they are; JavaScript lowers some of them too, but
  the program lowers either a string that \<open>createSafeFilename\<close> has already reduced to
  ASCII, or a string that is then compared with \<open>"all"\<close>, and no code unit above 127 has
  \<open>a\<close> or \<open>l\<close> as its lower case.
\<close>

definition toLowerCase :: "jsstring \<Rightarrow> jsstring" where
  "toLowerCase s = map (\<lambda>c. if isAsciiUpper c then c + 0x20 else c) s"

section \<open>File names (\<open>createSafeFilename\<close>, \<open>createSvgFilename\<close>)\<close>

text \<open>
  \<open>name.replace(/[^a-z0-9\.]/gi, "_")\<close>: the expression has no \<open>u\<close> flag, so it works on
  single code units, and with the \<open>i\<close> flag the class \<open>a-z\<close> covers exactly the ASCII
  letters of both cases. Every code unit outside letters, digits and the dot (0x2E) is
  replaced by the underscore (0x5F).
\<close>

definition replaceUnsafe :: "jsstring \<Rightarrow> jsstring" where
  "replaceUnsafe name =
     map (\<lambda>c. if isAsciiLower c \<or> isAsciiUpper c \<or> isAsciiDigit c \<or> c = 0x2E then c else 0x5F) name"

definition createSafeFilename :: "jsstring \<Rightarrow> jsstring" where
  "createSafeFilename name = toLowerCase (replaceUnsafe name)"

definition createSvgFilename :: "jsstring \<Rightarrow> jsstring \<Rightarrow> jsstring" where
  "createSvgFilename name weight =
     (let safeName = createSafeFilename name in
      if weight = js ''regular'' then safeName @ js ''.svg''
      else safeName @ js ''-'' @ weight @ js ''.svg'')"

section \<open>The font and the generated document (\<open>generateSymbolSvg\<close>)\<close>

text \<open>
  opentype.js is outside the repository. The font is taken as a parameter: a record of the
  four calls the program makes, each of which may throw (\<open>Inl\<close>) or return. A returned
  glyph, path or bounding box may be absent (\<open>undefined\<close> or \<open>null\<close>), which is what the
  source's \<open>if (!glyph)\<close>, \<open>if (!path)\<close> and \<open>if (!bbox)\<close> test; the glyph object itself is
  never read, so only its presence is kept.
\<close>

datatype js_error = Thrown

record Path =
  getBoundingBox :: "js_error + BoundingBox option"
  toSVG :: "nat \<Rightarrow> js_error + jsstring"

record Font =
  charToGlyphIndex :: "jsstring \<Rightarrow> js_error + nat"
  glyphs_get :: "nat \<Rightarrow> js_error + bool"
  getPath :: "jsstring \<Rightarrow> jsnum \<Rightarrow> jsnum \<Rightarrow> jsnum \<Rightarrow> js_error + Path option"

definition PATH_PRECISION :: nat where
  "PATH_PRECISION = 2"

text \<open>
  \<open>pathElement.match(/d="([^"]*)"/i)\<close>: the first position with \<open>d\<close> or \<open>D\<close>, then
  \<open>="\<close>, then a closing quote (0x22) somewhere after; the group is everything up to that
  first closing quote. The result is the captured group, or \<open>None\<close> for \<open>null\<close>.
\<close>

fun dMatch :: "jsstring \<Rightarrow> jsstring option" where
  "dMatch [] = None"
| "dMatch (c # cs) =
     (if (c = 0x64 \<or> c = 0x44) \<and> take 2 cs = [0x3D, 0x22] \<and> 0x22 \<in> set (drop 2 cs)
      then Some (takeWhile (\<lambda>u. u \<noteq> 0x22) (drop 2 cs))
      else dMatch cs)"

text \<open>
  The document is the template string of the source with its holes kept apart: the number
  \<open>fontSize\<close> printed in \<open>viewBox\<close>, \<open>width\<close> and \<open>height\<close>, the title, the six entries that
  \<open>transformMatrix.join(", ")\<close> prints, and the path data. Printing a number (which gives
  \<open>NaN\<close> and \<open>Infinity\<close> for the special values) is not modelled.
\<close>

record SvgDocument =
  svg_viewBox :: "jsnum list"
  svg_width :: jsnum
  svg_height :: jsnum
  svg_title :: jsstring
  svg_transform :: "jsnum list"
  svg_d :: jsstring

text \<open>The body of the \<open>try\<close> block: a throw of the font is \<open>Inl\<close>, \<open>return null\<close> is \<open>Inr None\<close>.\<close>

definition generateSymbolSvg_try ::
    "Font \<Rightarrow> jsstring \<Rightarrow> jsstring \<Rightarrow> GenerateSymbolOptions \<Rightarrow> js_error + SvgDocument option" where
  "generateSymbolSvg_try font char name options =
     (case charToGlyphIndex font char of
        Inl e \<Rightarrow> Inl e
      | Inr glyphIndex \<Rightarrow>
          if glyphIndex = 0 then Inr None
          else (case glyphs_get font glyphIndex of
             Inl e \<Rightarrow> Inl e
           | Inr glyph \<Rightarrow>
               if \<not> glyph then Inr None
               else (case getPath font char (Fin 0) (Fin 0) (fontSize options) of
                  Inl e \<Rightarrow> Inl e
                | Inr None \<Rightarrow> Inr None
                | Inr (Some path) \<Rightarrow>
                    (case getBoundingBox path of
                       Inl e \<Rightarrow> Inl e
                     | Inr None \<Rightarrow> Inr None
                     | Inr (Some bbox) \<Rightarrow>
                         (case toSVG path PATH_PRECISION of
                            Inl e \<Rightarrow> Inl e
                          | Inr pathElement \<Rightarrow>
                              (case dMatch pathElement of
                                 None \<Rightarrow> Inr None
                               | Some dContent \<Rightarrow>
                                   Inr (Some \<lparr>svg_viewBox = [Fin 0, Fin 0, fontSize options, fontSize options],
                                              svg_width = fontSize options,
                                              svg_height = fontSize options,
                                              svg_title = name,
                                              svg_transform = transformMatrix bbox options,
                                              svg_d = dContent\<rparr>)))))))"

text \<open>The \<open>catch\<close> clause logs the error and returns \<open>null\<close>.\<close>

definition generateSymbolSvg ::
    "Font \<Rightarrow> jsstring \<Rightarrow> jsstring \<Rightarrow> GenerateSymbolOptions \<Rightarrow> SvgDocument option" where
  "generateSymbolSvg font char name options =
     (case generateSymbolSvg_try font char name options of
        Inl e \<Rightarrow> None
      | Inr result \<Rightarrow> result)"

section \<open>The icons list (\<open>makeSvgs\<close>, lines 433 to 484)\<close>

text \<open>
  \<open>contents.split(/\r?\n/)\<close>: a line ends at a line feed (0x0A), or at a carriage return
  (0x0D) directly followed by one. The split of the empty string is one empty line.
\<close>

fun split_lines :: "jsstring \<Rightarrow> jsstring list" where
  "split_lines [] = [[]]"
| "split_lines [c] = (if c = 0x0A then [[], []] else [[c]])"
| "split_lines (c # c' # cs) =
     (if c = 0x0A then [] # split_lines (c' # cs)
      else if c = 0x0D \<and> c' = 0x0A then [] # split_lines cs
      else (case split_lines (c' # cs) of
              l # ls \<Rightarrow> (c # l) # ls
            | [] \<Rightarrow> [[c]]))"

text \<open>\<open>contents.split(/\r?\n/).filter((name) => name !== "")\<close>.\<close>

definition nonempty_lines :: "jsstring \<Rightarrow> jsstring list" where
  "nonempty_lines contents = filter (\<lambda>name. name \<noteq> []) (split_lines contents)"

text \<open>\<open>names.indexOf(iconName)\<close>: the first index where the name stands, or \<open>-1\<close>.\<close>

fun indexOf :: "jsstring list \<Rightarrow> jsstring \<Rightarrow> int" where
  "indexOf [] x = - 1"
| "indexOf (y # ys) x =
     (if y = x then 0 else (let i = indexOf ys x in if i = - 1 then - 1 else i + 1))"

text \<open>
  The loop \<open>for (const iconName of iconsList)\<close>, with \<open>filteredNames\<close> and
  \<open>filteredSymbols\<close> as its state (\<open>filteredNamesIndices\<close> is written and never read).
\<close>

fun filter_loop ::
    "jsstring list \<Rightarrow> jsstring list \<Rightarrow> jsstring list \<Rightarrow> jsstring list \<times> jsstring list
       \<Rightarrow> jsstring list \<times> jsstring list" where
  "filter_loop names symbolsData [] (filteredNames, filteredSymbols) =
     (filteredNames, filteredSymbols)"
| "filter_loop names symbolsData (iconName # rest) (filteredNames, filteredSymbols) =
     (let index = indexOf names iconName in
      if index \<noteq> - 1 then
        filter_loop names symbolsData rest
          (filteredNames @ [iconName],
           if index < int (length symbolsData)
           then (let charItem = symbolsData ! nat index in
                 if charItem \<noteq> [] then filteredSymbols @ [charItem] else filteredSymbols)
           else filteredSymbols)
      else filter_loop names symbolsData rest (filteredNames, filteredSymbols))"

text \<open>
  The block under \<open>if (iconsListFileOption)\<close>. \<open>readFileSync\<close> is the file system, taken as a
  parameter: it throws or returns the contents. The option is \<open>None\<close> when the flag is not
  given; the empty path is falsy as well. The result is the pair \<open>(names, symbolsData)\<close> that
  the generation loop then runs over.
\<close>

definition apply_icons_list ::
    "(jsstring \<Rightarrow> js_error + jsstring) \<Rightarrow> jsstring option \<Rightarrow> jsstring list \<Rightarrow> jsstring list
       \<Rightarrow> jsstring list \<times> jsstring list" where
  "apply_icons_list readFileSync iconsListFileOption names symbolsData =
     (case iconsListFileOption of
        None \<Rightarrow> (names, symbolsData)
      | Some file \<Rightarrow>
          if file = [] then (names, symbolsData)
          else (case readFileSync file of
             Inl e \<Rightarrow> (names, symbolsData)
           | Inr contents \<Rightarrow>
               (let iconsList = nonempty_lines contents in
                if length iconsList = 0 then (names, symbolsData)
                else (case filter_loop names symbolsData iconsList ([], []) of
                   (filteredNames, filteredSymbols) \<Rightarrow>
                     if length filteredNames = 0 then (names, symbolsData)
                     else (filteredNames, filteredSymbols)))))"

section \<open>The generation loop (\<open>makeSvgs\<close>, lines 489 to 509)\<close>

text \<open>
  \<open>writeFile\<close> is the second effect on the file system, a parameter too: given the file name,
  the document and the state of the file system it throws or returns the new state. Nothing
  in \<open>makeSvgs\<close> catches its throw, so a throw ends the run. The output directory that
  \<open>path.join\<close> puts in front of the name is the same for every file and is left out.
\<close>

fun weights_loop ::
    "(jsstring \<Rightarrow> SvgDocument \<Rightarrow> 'fs \<Rightarrow> js_error + 'fs) \<Rightarrow> GenerateSymbolOptions
       \<Rightarrow> jsstring \<Rightarrow> jsstring \<Rightarrow> (jsstring \<times> Font) list \<Rightarrow> 'fs \<Rightarrow> js_error + 'fs" where
  "weights_loop writeFile options name char [] fs = Inr fs"
| "weights_loop writeFile options name char ((weight, font) # validFonts) fs =
     (case generateSymbolSvg font char name options of
        None \<Rightarrow> weights_loop writeFile options name char validFonts fs
      | Some svgContent \<Rightarrow>
          (case writeFile (createSvgFilename name weight) svgContent fs of
             Inl e \<Rightarrow> Inl e
           | Inr fs' \<Rightarrow> weights_loop writeFile options name char validFonts fs'))"

text \<open>
  The outer loop over \<open>namesIndex\<close>, run on the indices \<open>0, ..., names.length - 1\<close>. An index
  beyond \<open>symbolsData\<close> reads \<open>undefined\<close>, and the empty string is falsy: both \<open>continue\<close>.
\<close>

fun names_loop ::
    "(jsstring \<Rightarrow> SvgDocument \<Rightarrow> 'fs \<Rightarrow> js_error + 'fs) \<Rightarrow> GenerateSymbolOptions
       \<Rightarrow> jsstring list \<Rightarrow> jsstring list \<Rightarrow> (jsstring \<times> Font) list \<Rightarrow> nat list \<Rightarrow> 'fs
       \<Rightarrow> js_error + 'fs" where
  "names_loop writeFile options names symbolsData validFonts [] fs = Inr fs"
| "names_loop writeFile options names symbolsData validFonts (namesIndex # rest) fs =
     (if \<not> namesIndex < length names \<or> names ! namesIndex = []
      then names_loop writeFile options names symbolsData validFonts rest fs
      else if \<not> namesIndex < length symbolsData \<or> symbolsData ! namesIndex = []
      then names_loop writeFile options names symbolsData validFonts rest fs
      else (case weights_loop writeFile options (names ! namesIndex) (symbolsData ! namesIndex)
                   validFonts fs of
              Inl e \<Rightarrow> Inl e
            | Inr fs' \<Rightarrow> names_loop writeFile options names symbolsData validFonts rest fs'))"

definition generate_all ::
    "(jsstring \<Rightarrow> SvgDocument \<Rightarrow> 'fs \<Rightarrow> js_error + 'fs) \<Rightarrow> GenerateSymbolOptions
       \<Rightarrow> jsstring list \<Rightarrow> jsstring list \<Rightarrow> (jsstring \<times> Font) list \<Rightarrow> 'fs \<Rightarrow> js_error + 'fs" where
  "generate_all writeFile options names symbolsData validFonts fs =
     names_loop writeFile options names symbolsData validFonts [0 ..< length names] fs"

text \<open>
  \<open>makeSvgs\<close> from line 433 on, once the fonts and the two data files are loaded: the
  icons list selects the names and symbols, and the loop runs over what it selected. (The
  creation of the output directory on line 487 is part of the caller's file system and is
  not modelled.)
\<close>

definition makeSvgs ::
    "(jsstring \<Rightarrow> js_error + jsstring) \<Rightarrow> (jsstring \<Rightarrow> SvgDocument \<Rightarrow> 'fs \<Rightarrow> js_error + 'fs)
       \<Rightarrow> GenerateSymbolOptions \<Rightarrow> jsstring option \<Rightarrow> jsstring list \<Rightarrow> jsstring list
       \<Rightarrow> (jsstring \<times> Font) list \<Rightarrow> 'fs \<Rightarrow> js_error + 'fs" where
  "makeSvgs readFileSync writeFile options iconsListFileOption names symbolsData validFonts fs =
     (case apply_icons_list readFileSync iconsListFileOption names symbolsData of
        (names', symbolsData') \<Rightarrow>
          generate_all writeFile options names' symbolsData' validFonts fs)"

section \<open>The weights of the command line (lines 593 to 610)\<close>

definition FONT_WEIGHTS :: "jsstring list" where
  "FONT_WEIGHTS =
     [js ''thin'', js ''ultraLight'', js ''light'', js ''regular'', js ''medium'',
      js ''semibold'', js ''bold'', js ''heavy'', js ''black'']"

text \<open>
  \<open>let weights = cli.flags.weight; if (weights.length === 1 && ...) weights = FONT_WEIGHTS\<close>:
  the value of \<open>weights\<close> that is passed to \<open>makeSvgs\<close>.
\<close>

definition cli_weights :: "jsstring list \<Rightarrow> jsstring list" where
  "cli_weights weights =
     (if length weights = 1 \<and> toLowerCase (weights ! 0) = js ''all'' then FONT_WEIGHTS
      else weights)"

section \<open>Fixtures\<close>

text \<open>
  Concrete fonts and file systems, for the instances below. First a font that resolves every
  character to glyph 1, whose path has the given bounding box and the given markup.
\<close>

definition fixed_font :: "BoundingBox \<Rightarrow> jsstring \<Rightarrow> Font" where
  "fixed_font bbox pathElement =
     \<lparr>charToGlyphIndex = (\<lambda>char. Inr 1),
      glyphs_get = (\<lambda>i. Inr True),
      getPath = (\<lambda>char x y size.
        Inr (Some \<lparr>getBoundingBox = Inr (Some bbox), toSVG = (\<lambda>precision. Inr pathElement)\<rparr>))\<rparr>"

text \<open>The markup that \<open>toSVG\<close> of opentype.js returns: \<open><path d="..."/>\<close>.\<close>

definition path_markup :: "jsstring \<Rightarrow> jsstring" where
  "path_markup pathData = js ''<path d='' @ [0x22] @ pathData @ [0x22] @ js ''/>''"

text \<open>A font without the character (glyph index 0), and a font whose every call throws.\<close>

definition throwing_font :: Font where
  "throwing_font =
     \<lparr>charToGlyphIndex = (\<lambda>char. Inl Thrown),
      glyphs_get = (\<lambda>i. Inl Thrown),
      getPath = (\<lambda>char x y size. Inl Thrown)\<rparr>"

definition missing_font :: Font where
  "missing_font =
     \<lparr>charToGlyphIndex = (\<lambda>char. Inr 0),
      glyphs_get = (\<lambda>i. Inl Thrown),
      getPath = (\<lambda>char x y size. Inl Thrown)\<rparr>"

text \<open>
  A font that has every character, with the character itself as the path data, so that a
  written document shows which symbol it was drawn from.
\<close>

definition echo_font :: Font where
  "echo_font =
     \<lparr>charToGlyphIndex = (\<lambda>char. Inr 1),
      glyphs_get = (\<lambda>i. Inr True),
      getPath = (\<lambda>char x y size.
        Inr (Some \<lparr>getBoundingBox = Inr (Some (box 0 0 10 10)),
                   toSVG = (\<lambda>precision. Inr (path_markup char))\<rparr>))\<rparr>"

text \<open>A file system with one readable file.\<close>

definition single_file :: "jsstring \<Rightarrow> jsstring \<Rightarrow> jsstring \<Rightarrow> js_error + jsstring" where
  "single_file file contents f = (if f = file then Inr contents else Inl Thrown)"

text \<open>A file system that never refuses a write and records the writes, newest first.\<close>

definition record_write ::
    "jsstring \<Rightarrow> SvgDocument \<Rightarrow> (jsstring \<times> SvgDocument) list
       \<Rightarrow> js_error + (jsstring \<times> SvgDocument) list" where
  "record_write file contents fs = Inr ((file, contents) # fs)"

section \<open>Properties of the fit transform\<close>

lemmas fit_defs = symbolWidth_def symbolHeight_def availableWidth_def availableHeight_def
  scale_def scaledWidth_def scaledHeight_def translateX_def translateY_def transformMatrix_def
  box_def canvas_def

text \<open>
  Claim C4. The two worked examples: canvas 24, padding 2 and the box \<open>(0, 0, 100, 50)\<close>
  give scale 0.2, translateX 2, translateY 7; the square box \<open>(0, 0, 10, 10)\<close> gives scale
  2 and both translations 2.
\<close>

theorem worked_examples:
  "transformMatrix (box 0 0 100 50) (canvas 24 2)
     = [Fin (2 / 10), Fin 0, Fin 0, Fin (2 / 10), Fin 2, Fin 7]
   \<and> transformMatrix (box 0 0 10 10) (canvas 24 2)
     = [Fin 2, Fin 0, Fin 0, Fin 2, Fin 2, Fin 2]"
  by (simp add: fit_defs)

section \<open>Properties of the binary64 arithmetic\<close>

lemma pow2_powr: "pow2 e = 2 powr (of_int e)"
proof (cases "0 \<le> e")
  case True
  then show ?thesis
    by (simp add: pow2_def powr_realpow [symmetric])
next
  case False
  have "(2::real) powr (of_int e) = 1 / 2 powr (- of_int e)"
    by (simp add: powr_minus field_simps)
  also have "\<dots> = 1 / 2 powr (real (nat (- e)))"
    using False by simp
  also have "\<dots> = 1 / 2 ^ nat (- e)"
    by (simp only: powr_realpow [of 2, simplified])
  finally show ?thesis using False by (simp add: pow2_def)
qed

lemma pow2_pos: "0 < pow2 e"
  by (simp add: pow2_powr)

lemma pow2_add: "pow2 (a + b) = pow2 a * pow2 b"
  by (simp add: pow2_powr powr_add)

lemma pow2_mono: "a \<le> b \<Longrightarrow> pow2 a \<le> pow2 b"
  by (simp add: pow2_powr)

lemma pow2_less: "a < b \<Longrightarrow> pow2 a < pow2 b"
  by (simp add: pow2_powr)

lemma pow2_0: "pow2 0 = 1" and pow2_1: "pow2 1 = 2" and pow2_m1: "pow2 (- 1) = 1 / 2"
  by (simp_all add: pow2_def)

lemma pow2_Suc: "pow2 (e + 1) = 2 * pow2 e"
  by (simp add: pow2_add pow2_1)

lemma pow2_pred: "pow2 (e - 1) = pow2 e / 2"
  using pow2_add [of e "- 1"] by (simp add: pow2_m1)

lemma pow2_double: "a = b + 1 \<Longrightarrow> pow2 a = 2 * pow2 b"
  by (simp add: pow2_Suc)

lemma pow2_half: "a = b - 1 \<Longrightarrow> pow2 a = pow2 b / 2"
  by (simp add: pow2_pred)

lemma expo_aux_bounds:
  "pow2 (- int n) \<le> x \<Longrightarrow> x < pow2 (int n + 1) \<Longrightarrow>
   pow2 (expo_aux n x) \<le> x \<and> x < pow2 (expo_aux n x + 1)"
proof (induction n arbitrary: x)
  case 0
  then show ?case by (simp add: pow2_0 pow2_1)
next
  case (Suc n)
  have up: "pow2 (int (Suc n) + 1) = 2 * pow2 (int n + 1)"
    by (rule pow2_double) simp
  have down: "pow2 (- int (Suc n)) = pow2 (- int n) / 2"
    by (rule pow2_half) simp
  show ?case
  proof (cases "2 \<le> x")
    case True
    have "pow2 (- int n) \<le> pow2 0" by (rule pow2_mono) simp
    then have lo: "pow2 (- int n) \<le> x / 2" using True by (simp add: pow2_0)
    from Suc.prems(2) have "x < 2 * pow2 (int n + 1)" by (simp only: up)
    then have hi: "x / 2 < pow2 (int n + 1)" by simp
    define e where "e = expo_aux n (x / 2)"
    have ih: "pow2 e \<le> x / 2" "x / 2 < pow2 (e + 1)"
      using Suc.IH [OF lo hi] by (simp_all add: e_def)
    have r: "expo_aux (Suc n) x = e + 1" using True by (simp add: e_def)
    have d1: "pow2 (e + 1) = 2 * pow2 e" by (rule pow2_double) simp
    have d2: "pow2 (e + 1 + 1) = 2 * pow2 (e + 1)" by (rule pow2_double) simp
    have "pow2 (e + 1) \<le> x" using ih(1) d1 by linarith
    moreover have "x < pow2 (e + 1 + 1)" using ih(2) d2 by linarith
    ultimately show ?thesis by (simp only: r)
  next
    case False
    note not2 = this
    show ?thesis
    proof (cases "x < 1")
      case True
      from Suc.prems(1) have "pow2 (- int n) / 2 \<le> x" by (simp only: down)
      then have lo: "pow2 (- int n) \<le> x * 2" by simp
      have "pow2 1 \<le> pow2 (int n + 1)" by (rule pow2_mono) simp
      then have hi: "x * 2 < pow2 (int n + 1)" using True by (simp add: pow2_1)
      define e where "e = expo_aux n (x * 2)"
      have ih: "pow2 e \<le> x * 2" "x * 2 < pow2 (e + 1)"
        using Suc.IH [OF lo hi] by (simp_all add: e_def)
      have r: "expo_aux (Suc n) x = e - 1" using True not2 by (simp add: e_def)
      have d1: "pow2 (e - 1) = pow2 e / 2" by (rule pow2_half) simp
      have d2: "pow2 (e - 1 + 1) = 2 * pow2 (e - 1)" by (rule pow2_double) simp
      have "pow2 (e - 1) \<le> x" using ih(1) d1 by linarith
      moreover have "x < pow2 (e - 1 + 1)" using ih(2) d1 d2 pow2_Suc [of e] by linarith
      ultimately show ?thesis by (simp only: r)
    next
      case False
      then show ?thesis using not2 by (simp add: pow2_0 pow2_1)
    qed
  qed
qed


lemma roundHalfEven_err: "\<bar>of_int (roundHalfEven y) - y\<bar> \<le> 1 / 2"
proof -
  define f where "f = \<lfloor>y\<rfloor>"
  have "of_int f \<le> y" "y < of_int f + 1" unfolding f_def by linarith+
  then show ?thesis
    unfolding roundHalfEven_def Let_def f_def [symmetric]
    by (auto simp: abs_if)
qed


lemma roundHalfEven_nonneg: "0 \<le> y \<Longrightarrow> 0 \<le> roundHalfEven y"
  unfolding roundHalfEven_def Let_def by (auto simp: zero_le_floor)

lemma pow2_le_D: "pow2 a \<le> pow2 b \<Longrightarrow> a \<le> b"
  using pow2_less [of b a] by (cases "a \<le> b") simp_all

lemma pow2_less_D: "pow2 a < pow2 b \<Longrightarrow> a < b"
  using pow2_mono [of b a] by (cases "a < b") simp_all

lemma pow2_m53: "pow2 (- 53) = 1 / 2 ^ 53"
  by (simp add: pow2_def)

text \<open>The rounded value is always within half a unit in the last place.\<close>

lemma b64_half_ulp:
  fixes x :: real
  defines "ulp \<equiv> pow2 (max (expo x) (- 1022) - 52)"
  defines "r \<equiv> of_int (roundHalfEven (x / ulp)) * ulp"
  shows "\<bar>r - x\<bar> \<le> ulp / 2"
    and "b64 x = (if pow2 1024 \<le> \<bar>r\<bar> then (if 0 < x then PInf else NInf) else Fin r)"
    and "0 \<le> x \<Longrightarrow> 0 \<le> r"
proof -
  have pos: "0 < ulp" unfolding ulp_def by (rule pow2_pos)
  have "\<bar>of_int (roundHalfEven (x / ulp)) - x / ulp\<bar> \<le> 1 / 2"
    by (rule roundHalfEven_err)
  then have "\<bar>of_int (roundHalfEven (x / ulp)) - x / ulp\<bar> * ulp \<le> 1 / 2 * ulp"
    using pos by (intro mult_right_mono) simp_all
  moreover have "\<bar>of_int (roundHalfEven (x / ulp)) - x / ulp\<bar> * ulp = \<bar>r - x\<bar>"
  proof -
    have "\<bar>of_int (roundHalfEven (x / ulp)) - x / ulp\<bar> * ulp
        = \<bar>(of_int (roundHalfEven (x / ulp)) - x / ulp) * ulp\<bar>"
      using pos by (simp add: abs_mult)
    also have "(of_int (roundHalfEven (x / ulp)) - x / ulp) * ulp = r - x"
      using pos by (simp add: r_def algebra_simps)
    finally show ?thesis .
  qed
  ultimately show "\<bar>r - x\<bar> \<le> ulp / 2" by simp
  show "b64 x = (if pow2 1024 \<le> \<bar>r\<bar> then (if 0 < x then PInf else NInf) else Fin r)"
    by (simp add: b64_def Let_def r_def ulp_def)
  show "0 \<le> r" if "0 \<le> x"
  proof -
    have "0 \<le> x / ulp" using that pos by simp
    then have "0 \<le> roundHalfEven (x / ulp)" by (rule roundHalfEven_nonneg)
    then show ?thesis using pos by (simp add: r_def)
  qed
qed

lemma expo_normal:
  assumes "pow2 (- 1022) \<le> \<bar>x\<bar>" "\<bar>x\<bar> \<le> pow2 1023"
  shows "- 1022 \<le> expo x" "expo x \<le> 1023" "pow2 (expo x) \<le> \<bar>x\<bar>"
proof -
  have "pow2 (- int 2200) \<le> pow2 (- 1022)" by (rule pow2_mono) simp
  then have lo: "pow2 (- int 2200) \<le> \<bar>x\<bar>" using assms(1) by simp
  have "pow2 1023 < pow2 (int 2200 + 1)" by (rule pow2_less) simp
  then have hi: "\<bar>x\<bar> < pow2 (int 2200 + 1)" using assms(2) by simp
  have b: "pow2 (expo x) \<le> \<bar>x\<bar>" "\<bar>x\<bar> < pow2 (expo x + 1)"
    using expo_aux_bounds [OF lo hi] by (simp_all add: expo_def)
  show "pow2 (expo x) \<le> \<bar>x\<bar>" by (rule b(1))
  have "pow2 (- 1022) < pow2 (expo x + 1)" using assms(1) b(2) by simp
  then have "- 1022 < expo x + 1" by (rule pow2_less_D)
  then show "- 1022 \<le> expo x" by simp
  have "pow2 (expo x) \<le> pow2 1023" using assms(2) b(1) by simp
  then show "expo x \<le> 1023" by (rule pow2_le_D)
qed


text \<open>In the normal range the relative error is at most \<open>2^-53\<close> and nothing overflows.\<close>

lemma b64_normal:
  assumes "pow2 (- 1022) \<le> \<bar>x\<bar>" "\<bar>x\<bar> \<le> pow2 1023"
  shows "\<exists>r. b64 x = Fin r \<and> \<bar>r - x\<bar> \<le> \<bar>x\<bar> / 2 ^ 53"
proof -
  define ulp where "ulp = pow2 (max (expo x) (- 1022) - 52)"
  define r where "r = of_int (roundHalfEven (x / ulp)) * ulp"
  note e = expo_normal [OF assms]
  have m: "max (expo x) (- 1022) = expo x" using e(1) by simp
  have "pow2 (expo x + (- 53)) = pow2 (expo x - 52) / 2" by (rule pow2_half) simp
  then have "ulp / 2 = pow2 (expo x) * pow2 (- 53)" by (simp only: ulp_def m pow2_add)
  then have h: "ulp / 2 \<le> \<bar>x\<bar> / 2 ^ 53"
    using e(3) by (simp add: pow2_m53 divide_right_mono)
  have err: "\<bar>r - x\<bar> \<le> ulp / 2"
    unfolding r_def ulp_def by (rule b64_half_ulp(1))
  have "\<bar>r\<bar> \<le> \<bar>x\<bar> + \<bar>x\<bar> / 2 ^ 53" using err h by linarith
  also have "\<dots> \<le> pow2 1023 + pow2 1023 / 2 ^ 53"
    using assms(2) by (intro add_mono divide_right_mono) simp_all
  also have "\<dots> < 2 * pow2 1023" using pow2_pos [of 1023] by (simp add: field_simps)
  also have "2 * pow2 1023 = pow2 1024" by (rule pow2_double [symmetric]) simp
  finally have "\<not> pow2 1024 \<le> \<bar>r\<bar>" by simp
  then have "b64 x = Fin r"
    using b64_half_ulp(2) [of x] by (simp add: r_def ulp_def)
  then show ?thesis using err h by (intro exI [of _ r]) simp
qed



lemma p53: "(2::real) ^ 53 = 9007199254740992" by simp
lemma p51: "(2::real) ^ 51 = 2251799813685248" by simp
lemma p50: "(2::real) ^ 50 = 1125899906842624" by simp

lemma b64_range:
  assumes "pow2 a \<le> x" "x \<le> pow2 b" "- 1000 \<le> a" "b \<le> 1000"
  shows "\<exists>r. b64 x = Fin r \<and> x * (1 - 1 / 2 ^ 53) \<le> r \<and> r \<le> x * (1 + 1 / 2 ^ 53)
           \<and> pow2 (a - 1) \<le> r \<and> r \<le> pow2 (b + 1)"
proof -
  have xpos: "0 < x" using assms(1) pow2_pos [of a] by linarith
  have "pow2 (- 1022) \<le> pow2 a" using assms(3) by (intro pow2_mono) simp
  then have lo: "pow2 (- 1022) \<le> \<bar>x\<bar>" using assms(1) xpos by simp
  have "pow2 b \<le> pow2 1023" using assms(4) by (intro pow2_mono) simp
  then have hi: "\<bar>x\<bar> \<le> pow2 1023" using assms(2) xpos by simp
  obtain r where r: "b64 x = Fin r" "\<bar>r - x\<bar> \<le> \<bar>x\<bar> / 2 ^ 53"
    using b64_normal [OF lo hi] by blast
  have e: "\<bar>r - x\<bar> \<le> x / 2 ^ 53" using r(2) xpos by simp
  have small: "x / 2 ^ 53 \<le> x / 2" using xpos unfolding p53 by argo
  have h1: "pow2 (a - 1) = pow2 a / 2" by (rule pow2_half) simp
  have h2: "pow2 (b + 1) = 2 * pow2 b" by (rule pow2_double) simp
  have "x * (1 - 1 / 2 ^ 53) \<le> r" using e unfolding p53 by argo
  moreover have "r \<le> x * (1 + 1 / 2 ^ 53)" using e unfolding p53 by argo
  moreover have "pow2 (a - 1) \<le> r" using e small assms(1) h1 by linarith
  moreover have "r \<le> pow2 (b + 1)" using e small assms(2) h2 xpos by linarith
  ultimately show ?thesis using r(1) by blast
qed

lemma range_mult:
  assumes "pow2 a \<le> x" "x \<le> pow2 b" "pow2 c \<le> y" "y \<le> pow2 d"
  shows "pow2 (a + c) \<le> x * y" "x * y \<le> pow2 (b + d)"
proof -
  have xp: "0 < x" using assms(1) pow2_pos [of a] by linarith
  have yp: "0 < y" using assms(3) pow2_pos [of c] by linarith
  have "pow2 a * pow2 c \<le> x * y"
    using assms(1,3) pow2_pos [of a] pow2_pos [of c] by (intro mult_mono) simp_all
  then show "pow2 (a + c) \<le> x * y" by (simp only: pow2_add)
  have "x * y \<le> pow2 b * pow2 d"
    using assms(2,4) xp yp pow2_pos [of b] by (intro mult_mono) simp_all
  then show "x * y \<le> pow2 (b + d)" by (simp only: pow2_add)
qed

lemma pow2_inverse: "1 / pow2 e = pow2 (- e)"
proof -
  have "pow2 e * pow2 (- e) = pow2 0" by (simp only: pow2_add [symmetric]) simp
  then show ?thesis using pow2_pos [of e] by (simp add: pow2_0 field_simps)
qed

lemma range_inverse:
  assumes "pow2 c \<le> y" "y \<le> pow2 d"
  shows "pow2 (- d) \<le> 1 / y" "1 / y \<le> pow2 (- c)"
proof -
  have yp: "0 < y" using assms(1) pow2_pos [of c] by linarith
  have "1 / pow2 d \<le> 1 / y" using assms(2) yp by (intro divide_left_mono) simp_all
  then show "pow2 (- d) \<le> 1 / y" by (simp only: pow2_inverse)
  have "1 / y \<le> 1 / pow2 c"
    using assms(1) yp pow2_pos [of c] by (intro divide_left_mono) simp_all
  then show "1 / y \<le> pow2 (- c)" by (simp only: pow2_inverse)
qed

lemma range_divide:
  assumes "pow2 a \<le> x" "x \<le> pow2 b" "pow2 c \<le> y" "y \<le> pow2 d"
  shows "pow2 (a + (- d)) \<le> x / y" "x / y \<le> pow2 (b + (- c))"
  using range_mult [OF assms(1,2) range_inverse [OF assms(3,4)]] by simp_all

lemma div64_Fin: "b \<noteq> 0 \<Longrightarrow> div64 (Fin a) (Fin b) = b64 (a / b)"
  by (simp add: div64_def)

lemma mul64_Fin: "mul64 (Fin a) (Fin b) = b64 (a * b)"
  by (simp add: mul64_def)



text \<open>
  The real arithmetic behind the choice of the scale: \<open>s\<close> is a rounded \<open>A / w\<close>, \<open>sw\<close> a
  rounded \<open>w * s\<close>, \<open>sh\<close> a rounded \<open>h * s\<close>, and the other side \<open>h\<close> is at most \<open>w\<close> up to the
  rounding of the two ratios that were compared.
\<close>

lemma limiting_side_bounds:
  fixes w h A s sw sh :: real
  assumes pos: "0 < w" "0 < h" "0 < A"
    and s: "A / w * (1 - 1 / 2 ^ 53) \<le> s" "s \<le> A / w * (1 + 1 / 2 ^ 53)"
    and sw: "w * s * (1 - 1 / 2 ^ 53) \<le> sw" "sw \<le> w * s * (1 + 1 / 2 ^ 53)"
    and sh: "sh \<le> h * s * (1 + 1 / 2 ^ 53)"
    and cmp: "h * (1 - 1 / 2 ^ 53) \<le> w * (1 + 1 / 2 ^ 53)"
  shows "\<bar>sw - A\<bar> \<le> A / 2 ^ 51" and "sh \<le> A + A / 2 ^ 50"
proof -
  define W where "W = w * s"
  define H where "H = h * s"
  have spos: "0 < s"
  proof -
    have "0 < A / w * (1 - 1 / 2 ^ 53)" using pos by simp
    then show ?thesis using s(1) by linarith
  qed
  have "w * (A / w * (1 - 1 / 2 ^ 53)) \<le> w * s" using s(1) pos by (intro mult_left_mono) simp_all
  then have W1: "A * (1 - 1 / 2 ^ 53) \<le> W" using pos by (simp add: W_def)
  have "w * s \<le> w * (A / w * (1 + 1 / 2 ^ 53))" using s(2) pos by (intro mult_left_mono) simp_all
  then have W2: "W \<le> A * (1 + 1 / 2 ^ 53)" using pos by (simp add: W_def)
  have "h * (1 - 1 / 2 ^ 53) * s \<le> w * (1 + 1 / 2 ^ 53) * s"
    using cmp spos by (intro mult_right_mono) simp_all
  then have HW: "H * (1 - 1 / 2 ^ 53) \<le> W * (1 + 1 / 2 ^ 53)"
    by (simp add: H_def W_def algebra_simps)
  have sw1: "W * (1 - 1 / 2 ^ 53) \<le> sw" and sw2: "sw \<le> W * (1 + 1 / 2 ^ 53)"
    using sw by (simp_all add: W_def)
  have sh2: "sh \<le> H * (1 + 1 / 2 ^ 53)" using sh by (simp add: H_def)
  show "\<bar>sw - A\<bar> \<le> A / 2 ^ 51" using W1 W2 sw1 sw2 pos(3) unfolding p53 p51 by argo
  show "sh \<le> A + A / 2 ^ 50" using W2 HW sh2 pos(3) unfolding p53 p50 by argo
qed

text \<open>The rounded quotient of two sides in range, with its bounds.\<close>

lemma div64_range:
  assumes "pow2 (- 300) \<le> x" "x \<le> pow2 300" "pow2 (- 300) \<le> y" "y \<le> pow2 300"
  shows "\<exists>q. div64 (Fin x) (Fin y) = Fin q
           \<and> x / y * (1 - 1 / 2 ^ 53) \<le> q \<and> q \<le> x / y * (1 + 1 / 2 ^ 53)
           \<and> pow2 (- 601) \<le> q \<and> q \<le> pow2 601"
proof -
  have yp: "0 < y" using assms(3) pow2_pos [of "- 300"] by linarith
  have r: "pow2 (- 300 + (- 300)) \<le> x / y" "x / y \<le> pow2 (300 + (- (- 300)))"
    using range_divide [OF assms] by simp_all
  obtain q where q: "b64 (x / y) = Fin q" "x / y * (1 - 1 / 2 ^ 53) \<le> q"
      "q \<le> x / y * (1 + 1 / 2 ^ 53)" "pow2 (- 300 + (- 300) - 1) \<le> q"
      "q \<le> pow2 (300 + (- (- 300)) + 1)"
    using b64_range [OF r] by auto
  have "div64 (Fin x) (Fin y) = Fin q" using yp q(1) by (simp add: div64_Fin)
  then show ?thesis using q(2-5) by simp
qed

lemma mul64_range:
  assumes "pow2 (- 300) \<le> x" "x \<le> pow2 300" "pow2 (- 601) \<le> y" "y \<le> pow2 601"
  shows "\<exists>m. mul64 (Fin x) (Fin y) = Fin m
           \<and> x * y * (1 - 1 / 2 ^ 53) \<le> m \<and> m \<le> x * y * (1 + 1 / 2 ^ 53)
           \<and> pow2 (- 902) \<le> m \<and> m \<le> pow2 902"
proof -
  have r: "pow2 (- 300 + (- 601)) \<le> x * y" "x * y \<le> pow2 (300 + 601)"
    using range_mult [OF assms] by simp_all
  obtain m where m: "b64 (x * y) = Fin m" "x * y * (1 - 1 / 2 ^ 53) \<le> m"
      "m \<le> x * y * (1 + 1 / 2 ^ 53)" "pow2 (- 300 + (- 601) - 1) \<le> m"
      "m \<le> pow2 (300 + 601 + 1)"
    using b64_range [OF r] by auto
  show ?thesis using m by (simp add: mul64_Fin)
qed

text \<open>One branch of the choice: the scale is taken from the side \<open>w\<close>.\<close>

lemma branch_bounds:
  assumes w: "pow2 (- 300) \<le> w" "w \<le> pow2 300"
    and h: "pow2 (- 300) \<le> h" "h \<le> pow2 300"
    and A: "pow2 (- 300) \<le> A" "A \<le> pow2 300"
    and cmp: "h * (1 - 1 / 2 ^ 53) \<le> w * (1 + 1 / 2 ^ 53)"
  shows "\<exists>s sw sh. div64 (Fin A) (Fin w) = Fin s
           \<and> mul64 (Fin w) (Fin s) = Fin sw \<and> mul64 (Fin h) (Fin s) = Fin sh
           \<and> \<bar>sw - A\<bar> \<le> A / 2 ^ 51 \<and> sh \<le> A + A / 2 ^ 50"
proof -
  have pos: "0 < w" "0 < h" "0 < A"
    using w(1) h(1) A(1) pow2_pos [of "- 300"] by linarith+
  obtain s where s: "div64 (Fin A) (Fin w) = Fin s"
      "A / w * (1 - 1 / 2 ^ 53) \<le> s" "s \<le> A / w * (1 + 1 / 2 ^ 53)"
      "pow2 (- 601) \<le> s" "s \<le> pow2 601"
    using div64_range [OF A w] by blast
  obtain sw where sw: "mul64 (Fin w) (Fin s) = Fin sw"
      "w * s * (1 - 1 / 2 ^ 53) \<le> sw" "sw \<le> w * s * (1 + 1 / 2 ^ 53)"
    using mul64_range [OF w s(4,5)] by blast
  obtain sh where sh: "mul64 (Fin h) (Fin s) = Fin sh" "sh \<le> h * s * (1 + 1 / 2 ^ 53)"
    using mul64_range [OF h s(4,5)] by blast
  note b = limiting_side_bounds [OF pos s(2,3) sw(2,3) sh(2) cmp]
  show ?thesis using s(1) sw(1) sh(1) b by blast
qed

text \<open>
  Claim C2, amended. For a box and a configuration whose computed width, height and
  available side \<open>A = canvasSize - padding * 2\<close> lie between \<open>2^-300\<close> and \<open>2^300\<close>: the scale is
  \<open>A / symbolWidth\<close> when the ratio of the width is the larger one and \<open>A / symbolHeight\<close>
  otherwise; the scaled limiting side differs from \<open>A\<close> by at most \<open>A / 2^51\<close>, and the other
  scaled side is at most \<open>A + A / 2^50\<close>.
\<close>

theorem scale_choice_rounded:
  assumes "symbolWidth64 bbox = Fin w" and "symbolHeight64 bbox = Fin h"
    and "availableWidth64 options = Fin A"
    and "pow2 (- 300) \<le> w" and "w \<le> pow2 300"
    and "pow2 (- 300) \<le> h" and "h \<le> pow2 300"
    and "pow2 (- 300) \<le> A" and "A \<le> pow2 300"
  shows "availableHeight64 options = Fin A
    \<and> (js_gt (div64 (Fin w) (Fin A)) (div64 (Fin h) (Fin A)) \<longrightarrow>
          scale64 bbox options = div64 (Fin A) (Fin w)
        \<and> (\<exists>sw sh. scaledWidth64 bbox options = Fin sw \<and> \<bar>sw - A\<bar> \<le> A / 2 ^ 51
              \<and> scaledHeight64 bbox options = Fin sh \<and> sh \<le> A + A / 2 ^ 50))
    \<and> (\<not> js_gt (div64 (Fin w) (Fin A)) (div64 (Fin h) (Fin A)) \<longrightarrow>
          scale64 bbox options = div64 (Fin A) (Fin h)
        \<and> (\<exists>sw sh. scaledHeight64 bbox options = Fin sh \<and> \<bar>sh - A\<bar> \<le> A / 2 ^ 51
              \<and> scaledWidth64 bbox options = Fin sw \<and> sw \<le> A + A / 2 ^ 50))"
proof -
  note w = assms(4,5) and h = assms(6,7) and A = assms(8,9)
  have Ah: "availableHeight64 options = Fin A"
    using assms(3) by (simp add: availableHeight64_def availableWidth64_def)
  have Apos: "0 < A" using A(1) pow2_pos [of "- 300"] by linarith
  obtain rw where rw: "div64 (Fin w) (Fin A) = Fin rw"
      "w / A * (1 - 1 / 2 ^ 53) \<le> rw" "rw \<le> w / A * (1 + 1 / 2 ^ 53)"
    using div64_range [OF w A] by blast
  obtain rh where rh: "div64 (Fin h) (Fin A) = Fin rh"
      "h / A * (1 - 1 / 2 ^ 53) \<le> rh" "rh \<le> h / A * (1 + 1 / 2 ^ 53)"
    using div64_range [OF h A] by blast
  have gt: "js_gt (div64 (Fin w) (Fin A)) (div64 (Fin h) (Fin A)) = (rh < rw)"
    by (simp add: rw(1) rh(1))
  have sc: "scale64 bbox options =
      (if rh < rw then div64 (Fin A) (Fin w) else div64 (Fin A) (Fin h))"
    by (simp add: scale64_def assms(1,2,3) Ah gt)
  show ?thesis
  proof (intro conjI impI)
    show "availableHeight64 options = Fin A" by (rule Ah)
  next
    assume "js_gt (div64 (Fin w) (Fin A)) (div64 (Fin h) (Fin A))"
    then have lt: "rh < rw" by (simp add: gt)
    have "h / A * (1 - 1 / 2 ^ 53) \<le> w / A * (1 + 1 / 2 ^ 53)"
      using rh(2) rw(3) lt by linarith
    then have "h / A * (1 - 1 / 2 ^ 53) * A \<le> w / A * (1 + 1 / 2 ^ 53) * A"
      using Apos by (intro mult_right_mono) simp_all
    then have cmp: "h * (1 - 1 / 2 ^ 53) \<le> w * (1 + 1 / 2 ^ 53)"
      using Apos by simp
    obtain s sw sh where b: "div64 (Fin A) (Fin w) = Fin s"
        "mul64 (Fin w) (Fin s) = Fin sw" "mul64 (Fin h) (Fin s) = Fin sh"
        "\<bar>sw - A\<bar> \<le> A / 2 ^ 51" "sh \<le> A + A / 2 ^ 50"
      using branch_bounds [OF w h A cmp] by blast
    have s: "scale64 bbox options = Fin s" using lt b(1) by (simp add: sc)
    show "scale64 bbox options = div64 (Fin A) (Fin w)" using lt by (simp add: sc)
    have "scaledWidth64 bbox options = Fin sw"
      by (simp add: scaledWidth64_def assms(1) s b(2))
    moreover have "scaledHeight64 bbox options = Fin sh"
      by (simp add: scaledHeight64_def assms(2) s b(3))
    ultimately show "\<exists>sw sh. scaledWidth64 bbox options = Fin sw \<and> \<bar>sw - A\<bar> \<le> A / 2 ^ 51
              \<and> scaledHeight64 bbox options = Fin sh \<and> sh \<le> A + A / 2 ^ 50"
      using b(4,5) by blast
  next
    assume "\<not> js_gt (div64 (Fin w) (Fin A)) (div64 (Fin h) (Fin A))"
    then have le: "\<not> rh < rw" by (simp add: gt)
    have "w / A * (1 - 1 / 2 ^ 53) \<le> h / A * (1 + 1 / 2 ^ 53)"
      using rw(2) rh(3) le by linarith
    then have "w / A * (1 - 1 / 2 ^ 53) * A \<le> h / A * (1 + 1 / 2 ^ 53) * A"
      using Apos by (intro mult_right_mono) simp_all
    then have cmp: "w * (1 - 1 / 2 ^ 53) \<le> h * (1 + 1 / 2 ^ 53)"
      using Apos by simp
    obtain s sh sw where b: "div64 (Fin A) (Fin h) = Fin s"
        "mul64 (Fin h) (Fin s) = Fin sh" "mul64 (Fin w) (Fin s) = Fin sw"
        "\<bar>sh - A\<bar> \<le> A / 2 ^ 51" "sw \<le> A + A / 2 ^ 50"
      using branch_bounds [OF h w A cmp] by blast
    have s: "scale64 bbox options = Fin s" using le b(1) by (simp add: sc)
    show "scale64 bbox options = div64 (Fin A) (Fin h)" using le by (simp add: sc)
    have "scaledHeight64 bbox options = Fin sh"
      by (simp add: scaledHeight64_def assms(2) s b(2))
    moreover have "scaledWidth64 bbox options = Fin sw"
      by (simp add: scaledWidth64_def assms(1) s b(3))
    ultimately show "\<exists>sw sh. scaledHeight64 bbox options = Fin sh \<and> \<bar>sh - A\<bar> \<le> A / 2 ^ 51
              \<and> scaledWidth64 bbox options = Fin sw \<and> sw \<le> A + A / 2 ^ 50"
      using b(4,5) by blast
  qed
qed

lemma expo_aux_numeral:
  "expo_aux (numeral k) x =
     (if 2 \<le> x then expo_aux (pred_numeral k) (x / 2) + 1
      else if x < 1 then expo_aux (pred_numeral k) (x * 2) - 1
      else 0)"
  by (simp add: numeral_eq_Suc)

lemmas b64_eval = b64_def expo_def expo_aux_numeral pow2_def roundHalfEven_def Let_def

lemmas fit64_defs = symbolWidth64_def symbolHeight64_def availableWidth64_def
  availableHeight64_def scale64_def scaledWidth64_def scaledHeight64_def translateX64_def
  translateY64_def transformMatrix64_def add64_def sub64_def mul64_def div64_def box_def canvas_def

text \<open>
  Claim C2, as stated: with canvas size 24 and padding 2 the available side is 20; for the
  box \<open>(0, 0, 147, 147)\<close> both scaled sides are \<open>20.000000000000004\<close>, above 20, and for the box
  \<open>(0, 0, 1, 77)\<close> the scaled limiting side is \<open>19.999999999999996\<close>.
\<close>

theorem scaled_side_not_exact:
  "availableWidth64 (canvas 24 2) = Fin 20
   \<and> availableHeight64 (canvas 24 2) = Fin 20
   \<and> scaledWidth64 (box 0 0 147 147) (canvas 24 2) = Fin (5629499534213121 / 281474976710656)
   \<and> scaledHeight64 (box 0 0 147 147) (canvas 24 2) = Fin (5629499534213121 / 281474976710656)
   \<and> (20::real) < 5629499534213121 / 281474976710656
   \<and> scaledHeight64 (box 0 0 1 77) (canvas 24 2) = Fin (5629499534213119 / 281474976710656)
   \<and> (5629499534213119 / 281474976710656 :: real) < 20"
  by (simp add: fit64_defs b64_eval)

theorem scale_choice_rounded_witness:
  "scale64 (box 0 0 147 147) (canvas 24 2) = div64 (Fin 20) (Fin 147)
   \<and> (\<exists>sw sh. scaledHeight64 (box 0 0 147 147) (canvas 24 2) = Fin sh \<and> \<bar>sh - 20\<bar> \<le> 20 / 2 ^ 51
         \<and> scaledWidth64 (box 0 0 147 147) (canvas 24 2) = Fin sw \<and> sw \<le> 20 + 20 / 2 ^ 50)"
proof -
  have w: "symbolWidth64 (box 0 0 147 147) = Fin 147"
    and h: "symbolHeight64 (box 0 0 147 147) = Fin 147"
    and A: "availableWidth64 (canvas 24 2) = Fin 20"
    by (simp_all add: fit64_defs b64_eval)
  have r: "pow2 (- 300) \<le> 147" "(147::real) \<le> pow2 300" "pow2 (- 300) \<le> 20" "(20::real) \<le> pow2 300"
    by (simp_all add: pow2_def)
  have tie: "\<not> js_gt (div64 (Fin 147) (Fin 20)) (div64 (Fin 147) (Fin 20))"
    by (simp add: div64_def b64_eval)
  note t = scale_choice_rounded [OF w h A r(1,2) r(1,2) r(3,4)]
  show ?thesis
    using t [THEN conjunct2, THEN conjunct2, THEN mp, OF tie] by (simp only:)
qed

lemma roundHalfEven_minus: "roundHalfEven (- y) = - roundHalfEven y"
proof (cases "y = of_int \<lfloor>y\<rfloor>")
  case True
  then obtain k :: int where k: "y = of_int k" by blast
  have "- y = of_int (- k)" by (simp add: k)
  then have "roundHalfEven (- y) = - k"
    by (simp only: roundHalfEven_def Let_def floor_of_int) simp
  moreover have "roundHalfEven y = k"
    by (simp add: k roundHalfEven_def Let_def)
  ultimately show ?thesis by simp
next
  case False
  define f where "f = \<lfloor>y\<rfloor>"
  define d where "d = y - of_int f"
  have d: "0 < d" "d < 1"
    using False unfolding d_def f_def by linarith+
  have fl: "\<lfloor>- y\<rfloor> = - f - 1"
    using d by (intro floor_unique) (simp_all add: d_def)
  have dm: "- y - of_int (- f - 1) = 1 - d" by (simp add: d_def)
  have m: "roundHalfEven (- y) =
      (if 1 - d < 1 / 2 then - f - 1 else if 1 / 2 < 1 - d then - f - 1 + 1
       else if even (- f - 1) then - f - 1 else - f - 1 + 1)"
    by (simp only: roundHalfEven_def Let_def fl dm)
  have p: "roundHalfEven y =
      (if d < 1 / 2 then f else if 1 / 2 < d then f + 1 else if even f then f else f + 1)"
    by (simp only: roundHalfEven_def Let_def d_def f_def)
  have ev: "even (- f - 1) = odd f" by simp
  show ?thesis
  proof (cases "d < 1 / 2")
    case True
    then show ?thesis unfolding m p by simp
  next
    case False
    note nlt = this
    show ?thesis
    proof (cases "1 / 2 < d")
      case True
      then show ?thesis unfolding m p by simp
    next
      case False
      then have "d = 1 / 2" using nlt by simp
      then show ?thesis unfolding m p ev by simp
    qed
  qed
qed

lemma b64_minus: "b64 x = Fin r \<Longrightarrow> b64 (- x) = Fin (- r)"
proof -
  assume a: "b64 x = Fin r"
  define ulp where "ulp = pow2 (max (expo x) (- 1022) - 52)"
  define k where "k = roundHalfEven (x / ulp)"
  have e: "expo (- x) = expo x" by (simp add: expo_def)
  have x: "b64 x = (if pow2 1024 \<le> \<bar>of_int k * ulp\<bar> then (if 0 < x then PInf else NInf)
      else Fin (of_int k * ulp))"
    by (simp add: b64_def Let_def k_def ulp_def)
  have "roundHalfEven (- x / ulp) = - k"
    using roundHalfEven_minus [of "x / ulp"] by (simp add: k_def)
  then have m: "b64 (- x) = (if pow2 1024 \<le> \<bar>of_int k * ulp\<bar> then (if 0 < - x then PInf else NInf)
      else Fin (- (of_int k * ulp)))"
    by (simp add: b64_def Let_def e ulp_def)
  show ?thesis using a x m by (simp split: if_splits)
qed

text \<open>A rounded quotient and a rounded product when the scale may be negative.\<close>

lemma div64_abs_range:
  assumes "pow2 (- 300) \<le> \<bar>x\<bar>" "\<bar>x\<bar> \<le> pow2 300" "pow2 (- 300) \<le> y" "y \<le> pow2 300"
  shows "\<exists>q. div64 (Fin x) (Fin y) = Fin q \<and> pow2 (- 601) \<le> \<bar>q\<bar> \<and> \<bar>q\<bar> \<le> pow2 601"
proof -
  have yp: "0 < y" using assms(3) pow2_pos [of "- 300"] by linarith
  obtain q where q: "div64 (Fin \<bar>x\<bar>) (Fin y) = Fin q" "pow2 (- 601) \<le> q" "q \<le> pow2 601"
    using div64_range [OF assms] by blast
  have qpos: "0 < q" using q(2) pow2_pos [of "- 601"] by linarith
  have b: "b64 (\<bar>x\<bar> / y) = Fin q" using q(1) yp by (simp add: div64_Fin)
  show ?thesis
  proof (cases "0 \<le> x")
    case True
    then show ?thesis using q qpos by (intro exI [of _ q]) simp
  next
    case False
    then have "b64 (x / y) = Fin (- q)" using b64_minus [OF b] by simp
    then have "div64 (Fin x) (Fin y) = Fin (- q)" using yp by (simp add: div64_Fin)
    then show ?thesis using q(2,3) qpos by (intro exI [of _ "- q"]) simp
  qed
qed

lemma mul64_abs:
  assumes "pow2 (- 300) \<le> x" "x \<le> pow2 300" "pow2 (- 601) \<le> \<bar>y\<bar>" "\<bar>y\<bar> \<le> pow2 601"
  shows "\<exists>m. mul64 (Fin x) (Fin y) = Fin (if 0 \<le> y then m else - m)
           \<and> x * \<bar>y\<bar> * (1 - 1 / 2 ^ 53) \<le> m \<and> m \<le> x * \<bar>y\<bar> * (1 + 1 / 2 ^ 53)
           \<and> pow2 (- 902) \<le> m \<and> m \<le> pow2 902"
proof -
  obtain m where m: "mul64 (Fin x) (Fin \<bar>y\<bar>) = Fin m"
      "x * \<bar>y\<bar> * (1 - 1 / 2 ^ 53) \<le> m" "m \<le> x * \<bar>y\<bar> * (1 + 1 / 2 ^ 53)"
      "pow2 (- 902) \<le> m" "m \<le> pow2 902"
    using mul64_range [OF assms] by blast
  have b: "b64 (x * \<bar>y\<bar>) = Fin m" using m(1) by (simp add: mul64_Fin)
  show ?thesis
  proof (cases "0 \<le> y")
    case True
    then show ?thesis using m by (intro exI [of _ m]) simp
  next
    case False
    then have "b64 (x * y) = Fin (- m)" using b64_minus [OF b] by simp
    then have "mul64 (Fin x) (Fin y) = Fin (- m)" by (simp add: mul64_Fin)
    then show ?thesis using False m(2-5) by (intro exI [of _ m]) simp
  qed
qed

text \<open>
  The real arithmetic behind the aspect ratio: \<open>sw\<close> and \<open>sh\<close> are rounded values of \<open>W\<close> and
  \<open>H\<close>, \<open>q\<close> is a rounded \<open>sw / sh\<close> and \<open>q'\<close> a rounded \<open>W / H\<close>.
\<close>

lemma quotient_of_rounded:
  fixes W H sw sh :: real
  assumes pos: "0 < W" "0 < H"
    and sw: "W * (1 - 1 / 2 ^ 53) \<le> sw" "sw \<le> W * (1 + 1 / 2 ^ 53)"
    and sh: "H * (1 - 1 / 2 ^ 53) \<le> sh" "sh \<le> H * (1 + 1 / 2 ^ 53)"
  shows "sw / sh * (1 - 1 / 2 ^ 53) \<le> W / H * (1 + 1 / 2 ^ 53)"
    and "W / H * (1 - 1 / 2 ^ 53) \<le> sw / sh * (1 + 1 / 2 ^ 53)"
    and "0 < sh"
proof -
  have u: "0 \<le> 1 - 1 / (2::real) ^ 53" "0 \<le> 1 + 1 / (2::real) ^ 53" by simp_all
  have swp: "0 < sw" using pos(1) sw(1) unfolding p53 by argo
  show shp: "0 < sh" using pos(2) sh(1) unfolding p53 by argo
  have "sw * (H * (1 - 1 / 2 ^ 53)) \<le> W * (1 + 1 / 2 ^ 53) * sh"
    using sw(2) sh(1) swp pos u by (intro mult_mono) simp_all
  then have "sw * (H * (1 - 1 / 2 ^ 53)) / (sh * H) \<le> W * (1 + 1 / 2 ^ 53) * sh / (sh * H)"
    using shp pos(2) by (intro divide_right_mono) simp_all
  then show "sw / sh * (1 - 1 / 2 ^ 53) \<le> W / H * (1 + 1 / 2 ^ 53)"
    using shp pos(2) by simp
  have "W * (1 - 1 / 2 ^ 53) * sh \<le> sw * (H * (1 + 1 / 2 ^ 53))"
    using sw(1) sh(2) shp pos u by (intro mult_mono) simp_all
  then have "W * (1 - 1 / 2 ^ 53) * sh / (sh * H) \<le> sw * (H * (1 + 1 / 2 ^ 53)) / (sh * H)"
    using shp pos(2) by (intro divide_right_mono) simp_all
  then show "W / H * (1 - 1 / 2 ^ 53) \<le> sw / sh * (1 + 1 / 2 ^ 53)"
    using shp pos(2) by simp
qed

lemma quotient_error:
  fixes R Q q q' :: real
  assumes "0 < R"
    and "Q * (1 - 1 / 2 ^ 53) \<le> R * (1 + 1 / 2 ^ 53)" "R * (1 - 1 / 2 ^ 53) \<le> Q * (1 + 1 / 2 ^ 53)"
    and "Q * (1 - 1 / 2 ^ 53) \<le> q" "q \<le> Q * (1 + 1 / 2 ^ 53)"
    and "R * (1 - 1 / 2 ^ 53) \<le> q'" "q' \<le> R * (1 + 1 / 2 ^ 53)"
  shows "\<bar>q - q'\<bar> \<le> R / 2 ^ 50"
  using assms unfolding p53 p50 by argo


lemma pow2_601: "pow2 601 = 2 * pow2 600" "pow2 (- 601) = pow2 (- 600) / 2"
  by (rule pow2_double, simp) (rule pow2_half, simp)

text \<open>
  Claim C5, amended. For a box and a configuration whose computed width and height lie
  between \<open>2^-300\<close> and \<open>2^300\<close> and whose computed available side has a magnitude in the same
  range (so it is not zero): the quotient of the scaled sides and the quotient of the sides
  are both finite, and they differ by at most \<open>symbolWidth / symbolHeight / 2^50\<close>.
\<close>

theorem aspect_ratio_rounded:
  assumes "symbolWidth64 bbox = Fin w" and "symbolHeight64 bbox = Fin h"
    and "availableWidth64 options = Fin A"
    and "pow2 (- 300) \<le> w" and "w \<le> pow2 300"
    and "pow2 (- 300) \<le> h" and "h \<le> pow2 300"
    and "pow2 (- 300) \<le> \<bar>A\<bar>" and "\<bar>A\<bar> \<le> pow2 300"
  shows "\<exists>q1 q2. div64 (scaledWidth64 bbox options) (scaledHeight64 bbox options) = Fin q1
           \<and> div64 (symbolWidth64 bbox) (symbolHeight64 bbox) = Fin q2
           \<and> \<bar>q1 - q2\<bar> \<le> w / h / 2 ^ 50"
proof -
  note w = assms(4,5) and h = assms(6,7) and A = assms(8,9)
  have wp: "0 < w" and hp: "0 < h"
    using w(1) h(1) pow2_pos [of "- 300"] by linarith+
  have Ah: "availableHeight64 options = Fin A"
    using assms(3) by (simp add: availableHeight64_def availableWidth64_def)
  have "scale64 bbox options = div64 (Fin A) (Fin w) \<or> scale64 bbox options = div64 (Fin A) (Fin h)"
    by (simp add: scale64_def assms(1,2,3) Ah)
  then obtain s where s: "scale64 bbox options = Fin s" "pow2 (- 601) \<le> \<bar>s\<bar>" "\<bar>s\<bar> \<le> pow2 601"
    using div64_abs_range [OF A w] div64_abs_range [OF A h] by auto
  have sp: "0 < \<bar>s\<bar>" using s(2) pow2_pos [of "- 601"] by linarith
  obtain mw where mw: "mul64 (Fin w) (Fin s) = Fin (if 0 \<le> s then mw else - mw)"
      "w * \<bar>s\<bar> * (1 - 1 / 2 ^ 53) \<le> mw" "mw \<le> w * \<bar>s\<bar> * (1 + 1 / 2 ^ 53)"
    using mul64_abs [OF w s(2,3)] by blast
  obtain mh where mh: "mul64 (Fin h) (Fin s) = Fin (if 0 \<le> s then mh else - mh)"
      "h * \<bar>s\<bar> * (1 - 1 / 2 ^ 53) \<le> mh" "mh \<le> h * \<bar>s\<bar> * (1 + 1 / 2 ^ 53)"
    using mul64_abs [OF h s(2,3)] by blast
  have Wp: "0 < w * \<bar>s\<bar>" and Hp: "0 < h * \<bar>s\<bar>" using wp hp sp by simp_all
  note Q = quotient_of_rounded [OF Wp Hp mw(2,3) mh(2,3)]
  have R: "w * \<bar>s\<bar> / (h * \<bar>s\<bar>) = w / h" using sp by simp
  have Rr: "pow2 (- 300 + (- 300)) \<le> w / h" "w / h \<le> pow2 (300 + (- (- 300)))"
    using range_divide [OF w h] by simp_all
  then have Rr': "pow2 (- 600) \<le> w / h" "w / h \<le> pow2 600" by simp_all
  have Rp: "0 < w / h" using wp hp by simp
  have Q1: "mw / mh * (1 - 1 / 2 ^ 53) \<le> w / h * (1 + 1 / 2 ^ 53)"
    and Q2: "w / h * (1 - 1 / 2 ^ 53) \<le> mw / mh * (1 + 1 / 2 ^ 53)"
    using Q(1,2) by (simp_all only: R)
  have lo: "pow2 (- 601) \<le> mw / mh"
    using Q2 Rr'(1) Rp unfolding p53 pow2_601 by argo
  have hi: "mw / mh \<le> pow2 601"
    using Q1 Rr'(2) Rp unfolding p53 pow2_601 by argo
  obtain q1 where q1: "b64 (mw / mh) = Fin q1" "mw / mh * (1 - 1 / 2 ^ 53) \<le> q1"
      "q1 \<le> mw / mh * (1 + 1 / 2 ^ 53)"
    using b64_range [OF lo hi] by auto
  have sw: "scaledWidth64 bbox options = Fin (if 0 \<le> s then mw else - mw)"
    by (simp add: scaledWidth64_def assms(1) s(1) mw(1))
  have sh: "scaledHeight64 bbox options = Fin (if 0 \<le> s then mh else - mh)"
    by (simp add: scaledHeight64_def assms(2) s(1) mh(1))
  have mhp: "mh \<noteq> 0" using Q(3) by simp
  have d1: "div64 (scaledWidth64 bbox options) (scaledHeight64 bbox options) = Fin q1"
    using q1(1) mhp by (simp add: sw sh div64_Fin)
  obtain q2 where q2: "div64 (Fin w) (Fin h) = Fin q2"
      "w / h * (1 - 1 / 2 ^ 53) \<le> q2" "q2 \<le> w / h * (1 + 1 / 2 ^ 53)"
    using div64_range [OF w h] by blast
  have d2: "div64 (symbolWidth64 bbox) (symbolHeight64 bbox) = Fin q2"
    by (simp add: assms(1,2) q2(1))
  have "\<bar>q1 - q2\<bar> \<le> w / h / 2 ^ 50"
    by (rule quotient_error [OF Rp Q1 Q2 q1(2,3) q2(2,3)])
  then show ?thesis using d1 d2 by blast
qed

text \<open>
  Claim C5, as stated: with canvas 24 and padding 2 the box \<open>(0, 0, 1, 3)\<close> gives
  \<open>0.33333333333333337\<close> for the quotient of the scaled sides and \<open>0.3333333333333333\<close> for the
  quotient of the sides; and with canvas 4 and padding 2, where nothing is available, the
  quotient of the scaled sides of a square box is \<open>NaN\<close>.
\<close>

theorem aspect_ratio_not_exact:
  "div64 (scaledWidth64 (box 0 0 1 3) (canvas 24 2)) (scaledHeight64 (box 0 0 1 3) (canvas 24 2))
     = Fin (3002399751580331 / 9007199254740992)
   \<and> div64 (symbolWidth64 (box 0 0 1 3)) (symbolHeight64 (box 0 0 1 3))
     = Fin (6004799503160661 / 18014398509481984)
   \<and> (3002399751580331 / 9007199254740992 :: real) \<noteq> 6004799503160661 / 18014398509481984
   \<and> div64 (scaledWidth64 (box 0 0 10 10) (canvas 4 2)) (scaledHeight64 (box 0 0 10 10) (canvas 4 2))
     = NaN
   \<and> div64 (symbolWidth64 (box 0 0 10 10)) (symbolHeight64 (box 0 0 10 10)) = Fin 1"
  by (simp add: fit64_defs b64_eval)

theorem aspect_ratio_rounded_witness:
  "\<exists>q1 q2. div64 (scaledWidth64 (box 0 0 1 3) (canvas 24 2)) (scaledHeight64 (box 0 0 1 3) (canvas 24 2)) = Fin q1
     \<and> div64 (symbolWidth64 (box 0 0 1 3)) (symbolHeight64 (box 0 0 1 3)) = Fin q2
     \<and> \<bar>q1 - q2\<bar> \<le> 1 / 3 / 2 ^ 50"
proof -
  have w: "symbolWidth64 (box 0 0 1 3) = Fin 1"
    and h: "symbolHeight64 (box 0 0 1 3) = Fin 3"
    and A: "availableWidth64 (canvas 24 2) = Fin 20"
    by (simp_all add: fit64_defs b64_eval)
  have r: "pow2 (- 300) \<le> 1" "(1::real) \<le> pow2 300" "pow2 (- 300) \<le> 3" "(3::real) \<le> pow2 300"
      "pow2 (- 300) \<le> \<bar>20\<bar>" "\<bar>20::real\<bar> \<le> pow2 300"
    by (simp_all add: pow2_def)
  show ?thesis
    by (rule aspect_ratio_rounded [OF w h A r])
qed

subsection \<open>The corners of the box under the computed transform\<close>





lemma add64_zero_left: "add64 (Fin 0) (Fin a) = add64 (Fin a) (Fin 0)"
  by (simp add: add64_def)



















subsection \<open>The worked examples in binary64\<close>

text \<open>
  The two worked examples give the same matrices when every operation is rounded: the scale
  \<open>0.2\<close> is the binary64 number nearest to \<open>1/5\<close>, and the other entries are exact.
\<close>

lemma wide_box_scale:
  "scale64 (box 0 0 100 50) (canvas 24 2) = b64 (1 / 5)"
  by (simp add: fit64_defs b64_eval)

lemma wide_box_sides:
  "scaledWidth64 (box 0 0 100 50) (canvas 24 2) = Fin 20"
  "scaledHeight64 (box 0 0 100 50) (canvas 24 2) = Fin 10"
  by (simp_all add: scaledWidth64_def scaledHeight64_def wide_box_scale)
    (simp_all add: symbolWidth64_def symbolHeight64_def box_def sub64_def mul64_def b64_eval)

lemma small_box_scale:
  "scale64 (box 0 0 10 10) (canvas 24 2) = Fin 2"
  by (simp add: fit64_defs b64_eval)

lemma small_box_sides:
  "scaledWidth64 (box 0 0 10 10) (canvas 24 2) = Fin 20"
  "scaledHeight64 (box 0 0 10 10) (canvas 24 2) = Fin 20"
  by (simp_all add: scaledWidth64_def scaledHeight64_def small_box_scale)
    (simp_all add: symbolWidth64_def symbolHeight64_def box_def sub64_def mul64_def b64_eval)

lemma examples_binary64:
  "transformMatrix64 (box 0 0 100 50) (canvas 24 2)
     = [b64 (1 / 5), Fin 0, Fin 0, b64 (1 / 5), Fin 2, Fin 7]"
  "transformMatrix64 (box 0 0 10 10) (canvas 24 2) = [Fin 2, Fin 0, Fin 0, Fin 2, Fin 2, Fin 2]"
  "b64 (1 / 5) = Fin (3602879701896397 / 18014398509481984)"
  by (simp_all add: transformMatrix64_def translateX64_def translateY64_def wide_box_scale
      wide_box_sides small_box_scale small_box_sides)
    (simp_all add: box_def canvas_def sub64_def mul64_def div64_def b64_eval)

section \<open>Properties of the file names and of the weights\<close>


lemmas char_defs = isAsciiUpper_def isAsciiLower_def isAsciiDigit_def
lemmas name_defs = createSvgFilename_def createSafeFilename_def replaceUnsafe_def
  toLowerCase_def js_def

text \<open>
  Claim C6, as stated: the dot of \<open>Moon.Stars\<close> is kept, so neither file name has an
  underscore.
\<close>

theorem moon_stars_underscore:
  "createSvgFilename (js ''Moon.Stars'') (js ''regular'') \<noteq> js ''moon_stars.svg''
   \<and> createSvgFilename (js ''Moon.Stars'') (js ''bold'') \<noteq> js ''moon_stars-bold.svg''"
  by (simp add: name_defs char_defs)

lemma safe_unit:
  "(let r = (if isAsciiLower c \<or> isAsciiUpper c \<or> isAsciiDigit c \<or> c = 0x2E then c else 0x5F)
    in if isAsciiUpper r then r + 0x20 else r)
   = (if isAsciiUpper c then c + 0x20
      else if isAsciiLower c \<or> isAsciiDigit c \<or> c = 0x2E then c else 0x5F)"
  by (simp add: Let_def char_defs)

text \<open>
  Claim C6, amended. The file name for \<open>Moon.Stars\<close> is \<open>moon.stars.svg\<close> with the weight
  \<open>regular\<close> and \<open>moon.stars-bold.svg\<close> with the weight \<open>bold\<close>; sanitizing keeps letters
  (lowered), digits and dots and replaces every other code unit by an underscore.
\<close>

theorem moon_stars_filenames:
  "createSvgFilename (js ''Moon.Stars'') (js ''regular'') = js ''moon.stars.svg''
   \<and> createSvgFilename (js ''Moon.Stars'') (js ''bold'') = js ''moon.stars-bold.svg''
   \<and> createSafeFilename name =
       map (\<lambda>c. if isAsciiUpper c then c + 0x20
                else if isAsciiLower c \<or> isAsciiDigit c \<or> c = 0x2E then c else 0x5F) name"
proof (intro conjI)
  show "createSvgFilename (js ''Moon.Stars'') (js ''regular'') = js ''moon.stars.svg''"
    by (simp add: name_defs char_defs)
  show "createSvgFilename (js ''Moon.Stars'') (js ''bold'') = js ''moon.stars-bold.svg''"
    by (simp add: name_defs char_defs)
  show "createSafeFilename name =
       map (\<lambda>c. if isAsciiUpper c then c + 0x20
                else if isAsciiLower c \<or> isAsciiDigit c \<or> c = 0x2E then c else 0x5F) name"
    unfolding createSafeFilename_def replaceUnsafe_def toLowerCase_def map_map comp_def
    using safe_unit by (simp add: Let_def)
qed


lemma lower_of_upper: "isAsciiUpper c \<Longrightarrow> isAsciiLower (c + 0x20)"
proof -
  assume "isAsciiUpper c"
  then have u: "65 \<le> unat c" "unat c \<le> 90"
    by (simp_all add: isAsciiUpper_def word_le_nat_alt)
  have "unat (c + 0x20) = unat c + 32"
    using u by (simp add: unat_word_ariths)
  then show ?thesis
    using u by (simp add: isAsciiLower_def word_le_nat_alt)
qed

lemma createSafeFilename_map:
  "createSafeFilename name =
       map (\<lambda>c. if isAsciiUpper c then c + 0x20
                else if isAsciiLower c \<or> isAsciiDigit c \<or> c = 0x2E then c else 0x5F) name"
  unfolding createSafeFilename_def replaceUnsafe_def toLowerCase_def map_map comp_def
  using safe_unit by (simp add: Let_def)

text \<open>
  Claim C7, as stated: the weight \<open>ultraLight\<close> keeps its capital letter in the file name,
  which therefore differs from the name built with a sanitized, lowered weight.
\<close>

theorem weight_not_sanitized:
  "createSvgFilename (js ''star'') (js ''ultraLight'') = js ''star-ultraLight.svg''
   \<and> createSvgFilename (js ''star'') (js ''ultraLight'')
       \<noteq> createSafeFilename (js ''star'') @ js ''-'' @ createSafeFilename (js ''ultraLight'') @ js ''.svg''"
  by (simp add: name_defs char_defs)

text \<open>
  Claim C7, amended. The file name is the sanitized icon name plus \<open>.svg\<close> for the weight
  \<open>regular\<close>, and the sanitized icon name plus \<open>-\<close>, the weight as it was given, and
  \<open>.svg\<close> for any other weight. Only the icon name is sanitized: it keeps its length and
  consists of lower-case letters, digits, dots and underscores.
\<close>

theorem svg_filename:
  "createSvgFilename name weight =
     (if weight = js ''regular'' then createSafeFilename name @ js ''.svg''
      else createSafeFilename name @ js ''-'' @ weight @ js ''.svg'')
   \<and> length (createSafeFilename name) = length name
   \<and> list_all (\<lambda>c. isAsciiLower c \<or> isAsciiDigit c \<or> c = 0x2E \<or> c = 0x5F) (createSafeFilename name)"
proof (intro conjI)
  show "createSvgFilename name weight =
     (if weight = js ''regular'' then createSafeFilename name @ js ''.svg''
      else createSafeFilename name @ js ''-'' @ weight @ js ''.svg'')"
    by (simp add: createSvgFilename_def Let_def)
  show "length (createSafeFilename name) = length name"
    by (simp add: createSafeFilename_map)
  show "list_all (\<lambda>c. isAsciiLower c \<or> isAsciiDigit c \<or> c = 0x2E \<or> c = 0x5F) (createSafeFilename name)"
    unfolding createSafeFilename_map list_all_iff
    using lower_of_upper by auto
qed

lemma lower_unit_a: "((if isAsciiUpper c then c + 0x20 else c) = 0x61) = (c = 0x61 \<or> c = 0x41)"
proof (cases "isAsciiUpper c")
  case True
  have "(c + 0x20 = 0x61) = (c = 0x41)"
  proof
    assume "c + 0x20 = 0x61"
    then have "c + 0x20 - 0x20 = 0x61 - 0x20" by simp
    then show "c = 0x41" by simp
  qed simp
  moreover have "c \<noteq> 0x61" using True by (auto simp: isAsciiUpper_def)
  ultimately show ?thesis using True by simp
next
  case False
  then have "c \<noteq> 0x41" by (auto simp: isAsciiUpper_def)
  then show ?thesis using False by simp
qed

lemma lower_unit_l: "((if isAsciiUpper c then c + 0x20 else c) = 0x6C) = (c = 0x6C \<or> c = 0x4C)"
proof (cases "isAsciiUpper c")
  case True
  have "(c + 0x20 = 0x6C) = (c = 0x4C)"
  proof
    assume "c + 0x20 = 0x6C"
    then have "c + 0x20 - 0x20 = 0x6C - 0x20" by simp
    then show "c = 0x4C" by simp
  qed simp
  moreover have "c \<noteq> 0x6C" using True by (auto simp: isAsciiUpper_def)
  ultimately show ?thesis using True by simp
next
  case False
  then have "c \<noteq> 0x4C" by (auto simp: isAsciiUpper_def)
  then show ?thesis using False by simp
qed

lemma map_eq_three:
  "(map f w = [x, y, z]) = (\<exists>a l m. w = [a, l, m] \<and> f a = x \<and> f l = y \<and> f m = z)"
proof (cases w)
  case Nil
  then show ?thesis by simp
next
  case (Cons a w1)
  note w = this
  show ?thesis
  proof (cases w1)
    case Nil
    with w show ?thesis by simp
  next
    case (Cons l w2)
    note w1 = this
    show ?thesis
    proof (cases w2)
      case Nil
      with w w1 show ?thesis by simp
    next
      case (Cons m w3)
      with w w1 show ?thesis by (cases w3) simp_all
    qed
  qed
qed

lemma js_all: "js ''all'' = [0x61, 0x6C, 0x6C]"
  by (simp add: js_def)

lemma lower_is_all:
  "(toLowerCase w = js ''all'') =
   (\<exists>a l m. w = [a, l, m] \<and> (a = 0x61 \<or> a = 0x41) \<and> (l = 0x6C \<or> l = 0x4C) \<and> (m = 0x6C \<or> m = 0x4C))"
proof -
  have "(toLowerCase w = js ''all'') =
     (\<exists>a l m. w = [a, l, m] \<and> (if isAsciiUpper a then a + 0x20 else a) = 0x61
        \<and> (if isAsciiUpper l then l + 0x20 else l) = 0x6C
        \<and> (if isAsciiUpper m then m + 0x20 else m) = 0x6C)"
    unfolding toLowerCase_def js_all by (rule map_eq_three)
  then show ?thesis by (simp only: lower_unit_a lower_unit_l)
qed

text \<open>
  Claim C10. The weights are replaced by the nine of \<open>FONT_WEIGHTS\<close> exactly when the list
  has one element that is \<open>all\<close> in some mix of cases; any other list is passed on as it
  is, so \<open>-w all -w bold\<close> keeps \<open>all\<close> as the name of a weight.
\<close>

theorem all_sentinel:
  "cli_weights weights =
     (if \<exists>w. weights = [w] \<and> toLowerCase w = js ''all'' then FONT_WEIGHTS else weights)
   \<and> (toLowerCase w = js ''all'') =
       (\<exists>a l m. w = [a, l, m] \<and> (a = 0x61 \<or> a = 0x41) \<and> (l = 0x6C \<or> l = 0x4C) \<and> (m = 0x6C \<or> m = 0x4C))
   \<and> FONT_WEIGHTS = [js ''thin'', js ''ultraLight'', js ''light'', js ''regular'', js ''medium'',
        js ''semibold'', js ''bold'', js ''heavy'', js ''black'']
   \<and> length FONT_WEIGHTS = 9
   \<and> cli_weights [js ''all'', js ''bold''] = [js ''all'', js ''bold'']
   \<and> cli_weights [js ''All''] = FONT_WEIGHTS"
proof (intro conjI)
  have "(length weights = 1 \<and> toLowerCase (weights ! 0) = js ''all'')
      = (\<exists>w. weights = [w] \<and> toLowerCase w = js ''all'')"
    by (cases weights) auto
  then show "cli_weights weights =
     (if \<exists>w. weights = [w] \<and> toLowerCase w = js ''all'' then FONT_WEIGHTS else weights)"
    by (simp only: cli_weights_def)
  show "(toLowerCase w = js ''all'') =
       (\<exists>a l m. w = [a, l, m] \<and> (a = 0x61 \<or> a = 0x41) \<and> (l = 0x6C \<or> l = 0x4C) \<and> (m = 0x6C \<or> m = 0x4C))"
    by (rule lower_is_all)
  show "FONT_WEIGHTS = [js ''thin'', js ''ultraLight'', js ''light'', js ''regular'', js ''medium'',
        js ''semibold'', js ''bold'', js ''heavy'', js ''black'']"
    by (simp only: FONT_WEIGHTS_def)
  show "length FONT_WEIGHTS = 9"
    by (simp add: FONT_WEIGHTS_def)
  show "cli_weights [js ''all'', js ''bold''] = [js ''all'', js ''bold'']"
    by (simp add: cli_weights_def)
  show "cli_weights [js ''All''] = FONT_WEIGHTS"
    by (simp add: cli_weights_def toLowerCase_def js_def isAsciiUpper_def)
qed


section \<open>Properties of the generation and of the batch\<close>




lemma generate_success:
  assumes "charToGlyphIndex font char = Inr g" "g \<noteq> 0" "glyphs_get font g = Inr True"
    and "getPath font char (Fin 0) (Fin 0) (fontSize options) = Inr (Some path)"
    and "getBoundingBox path = Inr (Some bbox)"
    and "toSVG path PATH_PRECISION = Inr pathElement"
    and "dMatch pathElement = Some dContent"
  shows "generateSymbolSvg font char name options =
     Some \<lparr>svg_viewBox = [Fin 0, Fin 0, fontSize options, fontSize options],
           svg_width = fontSize options, svg_height = fontSize options, svg_title = name,
           svg_transform = transformMatrix bbox options, svg_d = dContent\<rparr>"
  using assms by (simp add: generateSymbolSvg_def generateSymbolSvg_try_def)

lemma generate_None_iff:
  "(generateSymbolSvg font char name options = None) =
   (\<not> (\<exists>g path bbox pathElement dContent.
        charToGlyphIndex font char = Inr g \<and> g \<noteq> 0 \<and> glyphs_get font g = Inr True
      \<and> getPath font char (Fin 0) (Fin 0) (fontSize options) = Inr (Some path)
      \<and> getBoundingBox path = Inr (Some bbox)
      \<and> toSVG path PATH_PRECISION = Inr pathElement
      \<and> dMatch pathElement = Some dContent))"
  by (auto simp: generateSymbolSvg_def generateSymbolSvg_try_def
           split: sum.splits option.splits if_splits)


lemma fixed_font_generate:
  "dMatch pathElement = Some dContent \<Longrightarrow>
   generateSymbolSvg (fixed_font bbox pathElement) char name options =
     Some \<lparr>svg_viewBox = [Fin 0, Fin 0, fontSize options, fontSize options],
           svg_width = fontSize options, svg_height = fontSize options, svg_title = name,
           svg_transform = transformMatrix bbox options, svg_d = dContent\<rparr>"
  by (rule generate_success [where g = 1 and bbox = bbox and pathElement = pathElement
        and path = "\<lparr>getBoundingBox = Inr (Some bbox), toSVG = (\<lambda>precision. Inr pathElement)\<rparr>"])
     (simp_all add: fixed_font_def)








lemma weights_loop_skip:
  "generateSymbolSvg font char name options = None \<Longrightarrow>
   weights_loop writeFile options name char (before @ (weight, font) # after) fs
     = weights_loop writeFile options name char (before @ after) fs"
proof (induction before arbitrary: fs)
  case Nil
  then show ?case by simp
next
  case (Cons wf before)
  obtain w f where wf: "wf = (w, f)" by (cases wf)
  show ?case
    using Cons by (simp add: wf split: option.splits sum.splits)
qed

lemma weights_loop_total:
  assumes "\<And>file contents st. \<exists>st'. writeFile file contents st = Inr st'"
  shows "\<exists>fs'. weights_loop writeFile options name char validFonts fs = Inr fs'"
proof (induction validFonts arbitrary: fs)
  case Nil
  show ?case by simp
next
  case (Cons wf validFonts)
  obtain w f where wf: "wf = (w, f)" by (cases wf)
  show ?case
  proof (cases "generateSymbolSvg f char name options")
    case None
    then show ?thesis using Cons by (simp add: wf)
  next
    case (Some svgContent)
    obtain st' where "writeFile (createSvgFilename name w) svgContent fs = Inr st'"
      using assms by blast
    then show ?thesis using Some Cons by (simp add: wf)
  qed
qed

lemma names_loop_total:
  assumes "\<And>file contents st. \<exists>st'. writeFile file contents st = Inr st'"
  shows "\<exists>fs'. names_loop writeFile options names symbolsData validFonts indices fs = Inr fs'"
proof (induction indices arbitrary: fs)
  case Nil
  show ?case by simp
next
  case (Cons i indices)
  obtain st' where
    "weights_loop writeFile options (names ! i) (symbolsData ! i) validFonts fs = Inr st'"
    using weights_loop_total [where writeFile = writeFile, OF assms] by blast
  then show ?case using Cons by simp
qed

text \<open>
  Claim C9. \<open>generateSymbolSvg\<close> returns \<open>null\<close> exactly when the chain of lookups does
  not go through: the glyph index is 0 (the character is not in the font), the glyph, the
  path, the bounding box or the \<open>d\<close> attribute is absent, or a call throws. The loop over
  the weights then treats the pair as if it were not in the list: nothing is written for it
  and the pairs after it are processed. Whatever the fonts do, the whole run returns as long
  as every \<open>writeFile\<close> returns.
\<close>

theorem failed_item_skipped:
  "(generateSymbolSvg font char name options = None) =
     (\<not> (\<exists>g path bbox pathElement dContent.
        charToGlyphIndex font char = Inr g \<and> g \<noteq> 0 \<and> glyphs_get font g = Inr True
      \<and> getPath font char (Fin 0) (Fin 0) (fontSize options) = Inr (Some path)
      \<and> getBoundingBox path = Inr (Some bbox)
      \<and> toSVG path PATH_PRECISION = Inr pathElement
      \<and> dMatch pathElement = Some dContent))
   \<and> (generateSymbolSvg font char name options = None \<longrightarrow>
        weights_loop writeFile options name char (before @ (weight, font) # after) fs
          = weights_loop writeFile options name char (before @ after) fs)
   \<and> ((\<forall>file contents st. \<exists>st'. writeFile file contents st = Inr st') \<longrightarrow>
        (\<exists>fs'. generate_all writeFile options names symbolsData validFonts fs = Inr fs'))"
proof (intro conjI impI)
  show "(generateSymbolSvg font char name options = None) =
     (\<not> (\<exists>g path bbox pathElement dContent.
        charToGlyphIndex font char = Inr g \<and> g \<noteq> 0 \<and> glyphs_get font g = Inr True
      \<and> getPath font char (Fin 0) (Fin 0) (fontSize options) = Inr (Some path)
      \<and> getBoundingBox path = Inr (Some bbox)
      \<and> toSVG path PATH_PRECISION = Inr pathElement
      \<and> dMatch pathElement = Some dContent))"
    by (rule generate_None_iff)
next
  assume "generateSymbolSvg font char name options = None"
  then show "weights_loop writeFile options name char (before @ (weight, font) # after) fs
          = weights_loop writeFile options name char (before @ after) fs"
    by (rule weights_loop_skip)
next
  assume "\<forall>file contents st. \<exists>st'. writeFile file contents st = Inr st'"
  then have "\<And>file contents st. \<exists>st'. writeFile file contents st = Inr st'" by blast
  then show "\<exists>fs'. generate_all writeFile options names symbolsData validFonts fs = Inr fs'"
    unfolding generate_all_def by (rule names_loop_total)
qed

lemma dMatch_diag: "dMatch (path_markup (js ''M0 0L10 10Z'')) = Some (js ''M0 0L10 10Z'')"
  by (simp add: path_markup_def js_def)

theorem failed_item_skipped_witness:
  "generateSymbolSvg missing_font (js ''x'') (js ''star'') (canvas 24 2) = None
   \<and> generateSymbolSvg throwing_font (js ''x'') (js ''star'') (canvas 24 2) = None
   \<and> weights_loop record_write (canvas 24 2) (js ''star'') (js ''x'')
        ([(js ''bold'', throwing_font)] @ (js ''thin'', missing_font)
           # [(js ''regular'', fixed_font (box 0 0 10 10) (path_markup (js ''M0 0L10 10Z'')))]) []
      = weights_loop record_write (canvas 24 2) (js ''star'') (js ''x'')
        ([(js ''bold'', throwing_font)]
           @ [(js ''regular'', fixed_font (box 0 0 10 10) (path_markup (js ''M0 0L10 10Z'')))]) []
   \<and> (\<exists>fs'. generate_all record_write (canvas 24 2) [js ''star''] [js ''x'']
          [(js ''bold'', throwing_font), (js ''thin'', missing_font),
           (js ''regular'', fixed_font (box 0 0 10 10) (path_markup (js ''M0 0L10 10Z'')))] [] = Inr fs')"
proof -
  have miss: "generateSymbolSvg missing_font (js ''x'') (js ''star'') (canvas 24 2) = None"
    by (simp add: generateSymbolSvg_def generateSymbolSvg_try_def missing_font_def)
  have thr: "generateSymbolSvg throwing_font (js ''x'') (js ''star'') (canvas 24 2) = None"
    by (simp add: generateSymbolSvg_def generateSymbolSvg_try_def throwing_font_def)
  have wr: "\<forall>file contents st. \<exists>st'. record_write file contents st = Inr st'"
    by (simp add: record_write_def)
  note t = failed_item_skipped [where font = missing_font and char = "js ''x''"
      and name = "js ''star''" and options = "canvas 24 2" and writeFile = record_write
      and before = "[(js ''bold'', throwing_font)]" and weight = "js ''thin''"
      and after = "[(js ''regular'', fixed_font (box 0 0 10 10) (path_markup (js ''M0 0L10 10Z'')))]"
      and fs = "[]" and names = "[js ''star'']" and symbolsData = "[js ''x'']"
      and validFonts = "[(js ''bold'', throwing_font), (js ''thin'', missing_font),
        (js ''regular'', fixed_font (box 0 0 10 10) (path_markup (js ''M0 0L10 10Z'')))]"]
  from t miss have skip: "weights_loop record_write (canvas 24 2) (js ''star'') (js ''x'')
        ([(js ''bold'', throwing_font)] @ (js ''thin'', missing_font)
           # [(js ''regular'', fixed_font (box 0 0 10 10) (path_markup (js ''M0 0L10 10Z'')))]) []
      = weights_loop record_write (canvas 24 2) (js ''star'') (js ''x'')
        ([(js ''bold'', throwing_font)]
           @ [(js ''regular'', fixed_font (box 0 0 10 10) (path_markup (js ''M0 0L10 10Z'')))]) []"
    by blast
  from t wr have total: "\<exists>fs'. generate_all record_write (canvas 24 2) [js ''star''] [js ''x'']
          [(js ''bold'', throwing_font), (js ''thin'', missing_font),
           (js ''regular'', fixed_font (box 0 0 10 10) (path_markup (js ''M0 0L10 10Z'')))] [] = Inr fs'"
    by blast
  from miss thr skip total show ?thesis by blast
qed

lemma batch_example:
  "generate_all record_write (canvas 24 2) [js ''star''] [js ''x'']
          [(js ''bold'', throwing_font), (js ''thin'', missing_font),
           (js ''regular'', fixed_font (box 0 0 10 10) (path_markup (js ''M0 0L10 10Z'')))] []
   = Inr [(js ''star.svg'',
           \<lparr>svg_viewBox = [Fin 0, Fin 0, Fin 24, Fin 24], svg_width = Fin 24, svg_height = Fin 24,
            svg_title = js ''star'', svg_transform = [Fin 2, Fin 0, Fin 0, Fin 2, Fin 2, Fin 2],
            svg_d = js ''M0 0L10 10Z''\<rparr>)]"
proof -
  have m: "transformMatrix (box 0 0 10 10) (canvas 24 2) = [Fin 2, Fin 0, Fin 0, Fin 2, Fin 2, Fin 2]"
    by (simp add: fit_defs)
  have miss: "generateSymbolSvg missing_font (js ''x'') (js ''star'') (canvas 24 2) = None"
    by (simp add: generateSymbolSvg_def generateSymbolSvg_try_def missing_font_def)
  have thr: "generateSymbolSvg throwing_font (js ''x'') (js ''star'') (canvas 24 2) = None"
    by (simp add: generateSymbolSvg_def generateSymbolSvg_try_def throwing_font_def)
  have nm: "createSvgFilename (js ''star'') (js ''regular'') = js ''star.svg''"
    by (simp add: createSvgFilename_def createSafeFilename_def replaceUnsafe_def toLowerCase_def
        js_def isAsciiUpper_def isAsciiLower_def isAsciiDigit_def)
  have nonempty: "js ''star'' \<noteq> []" "js ''x'' \<noteq> []" by (simp_all add: js_def)
  have size: "fontSize (canvas 24 2) = Fin 24" by (simp add: canvas_def)
  show ?thesis
    unfolding generate_all_def
    by (simp add: nonempty miss thr fixed_font_generate [OF dMatch_diag] m nm record_write_def size)
qed


section \<open>Properties of the icons list\<close>


lemma indexOf_ge: "- 1 \<le> indexOf names x"
  by (induction names) (auto simp: Let_def)

lemma indexOf_found: "(indexOf names x \<noteq> - 1) = (x \<in> set names)"
proof (induction names)
  case Nil
  show ?case by simp
next
  case (Cons y names)
  have "indexOf names x + 1 \<noteq> - 1" using indexOf_ge [of names x] by simp
  then show ?case using Cons by (auto simp: Let_def)
qed

lemma indexOf_nth:
  "x \<in> set names \<Longrightarrow>
   0 \<le> indexOf names x \<and> indexOf names x < int (length names)
   \<and> names ! nat (indexOf names x) = x"
proof (induction names)
  case Nil
  then show ?case by simp
next
  case (Cons y names)
  show ?case
  proof (cases "y = x")
    case True
    then show ?thesis by simp
  next
    case False
    then have mem: "x \<in> set names" using Cons.prems by simp
    then have nz: "indexOf names x \<noteq> - 1" by (simp add: indexOf_found)
    have ih: "0 \<le> indexOf names x" "indexOf names x < int (length names)"
        "names ! nat (indexOf names x) = x"
      using Cons.IH [OF mem] by simp_all
    have "nat (indexOf names x + 1) = Suc (nat (indexOf names x))" using ih(1) by simp
    then show ?thesis using False nz ih by (simp add: Let_def)
  qed
qed

lemma filter_loop_names:
  "fst (filter_loop names symbolsData iconsList (filteredNames, filteredSymbols))
     = filteredNames @ filter (\<lambda>n. n \<in> set names) iconsList"
proof (induction iconsList arbitrary: filteredNames filteredSymbols)
  case Nil
  show ?case by simp
next
  case (Cons iconName rest)
  show ?case
    by (simp add: Let_def indexOf_found Cons.IH del: filter_loop.simps(1))
qed

lemma filter_loop_symbols:
  assumes "length names \<le> length symbolsData" "[] \<notin> set symbolsData"
  shows "snd (filter_loop names symbolsData iconsList (filteredNames, filteredSymbols))
     = filteredSymbols
       @ map (\<lambda>n. symbolsData ! nat (indexOf names n)) (filter (\<lambda>n. n \<in> set names) iconsList)"
proof (induction iconsList arbitrary: filteredNames filteredSymbols)
  case Nil
  show ?case by simp
next
  case (Cons iconName rest)
  show ?case
  proof (cases "iconName \<in> set names")
    case True
    then have i: "0 \<le> indexOf names iconName" "indexOf names iconName < int (length names)"
      using indexOf_nth by simp_all
    then have r: "indexOf names iconName < int (length symbolsData)" using assms(1) by simp
    then have "nat (indexOf names iconName) < length symbolsData" using i(1) by simp
    then have "symbolsData ! nat (indexOf names iconName) \<in> set symbolsData" by simp
    then have ne: "symbolsData ! nat (indexOf names iconName) \<noteq> []" using assms(2) by metis
    show ?thesis
      using True r ne by (simp add: Let_def indexOf_found Cons.IH)
  next
    case False
    then show ?thesis by (simp add: Let_def indexOf_found Cons.IH)
  qed
qed


lemma apply_icons_list_read:
  assumes "listFile \<noteq> []" "readFileSync listFile = Inr contents"
  shows "apply_icons_list readFileSync (Some listFile) names symbolsData =
     (if filter (\<lambda>n. n \<in> set names) (nonempty_lines contents) = [] then (names, symbolsData)
      else filter_loop names symbolsData (nonempty_lines contents) ([], []))"
proof -
  obtain fn fs where fl:
    "filter_loop names symbolsData (nonempty_lines contents) ([], []) = (fn, fs)"
    by (cases "filter_loop names symbolsData (nonempty_lines contents) ([], [])")
  have fn: "fn = filter (\<lambda>n. n \<in> set names) (nonempty_lines contents)"
    using filter_loop_names [of names symbolsData "nonempty_lines contents" "[]" "[]"] fl by simp
  show ?thesis
    using assms fl fn by (auto simp: apply_icons_list_def Let_def)
qed

lemma no_match_iff:
  "(filter (\<lambda>n. n \<in> set names) iconsList = []) = (set iconsList \<inter> set names = {})"
  by (auto simp: filter_empty_conv)

text \<open>
  With an icons list file that is read, the run falls back to all the names and symbols when
  the file has no line that is not empty, and when none of its lines is an available name.
  When some line is an available name, the names of the run are the lines that are available
  names, in the order of the file. The symbols of the run are those at the index of each name
  in the name list only when the symbols are as many as the names and none is empty.
\<close>

lemma icons_list_selection:
  assumes "listFile \<noteq> []" and "readFileSync listFile = Inr contents"
  shows "(nonempty_lines contents = [] \<longrightarrow>
            apply_icons_list readFileSync (Some listFile) names symbolsData = (names, symbolsData))
       \<and> (set (nonempty_lines contents) \<inter> set names = {} \<longrightarrow>
            apply_icons_list readFileSync (Some listFile) names symbolsData = (names, symbolsData))
       \<and> (set (nonempty_lines contents) \<inter> set names \<noteq> {} \<longrightarrow>
            fst (apply_icons_list readFileSync (Some listFile) names symbolsData)
              = filter (\<lambda>n. n \<in> set names) (nonempty_lines contents))
       \<and> (set (nonempty_lines contents) \<inter> set names \<noteq> {}
            \<and> length names \<le> length symbolsData \<and> [] \<notin> set symbolsData \<longrightarrow>
            snd (apply_icons_list readFileSync (Some listFile) names symbolsData)
              = map (\<lambda>n. symbolsData ! nat (indexOf names n))
                  (filter (\<lambda>n. n \<in> set names) (nonempty_lines contents)))
       \<and> (\<forall>n. n \<in> set names \<longrightarrow> names ! nat (indexOf names n) = n)
       \<and> makeSvgs readFileSync writeFile options (Some listFile) names symbolsData validFonts fs
            = generate_all writeFile options
                (fst (apply_icons_list readFileSync (Some listFile) names symbolsData))
                (snd (apply_icons_list readFileSync (Some listFile) names symbolsData)) validFonts fs"
proof (intro conjI impI allI)
  note rd = apply_icons_list_read [where readFileSync = readFileSync and listFile = listFile
      and contents = contents and names = names and symbolsData = symbolsData, OF assms]
  {
    assume "nonempty_lines contents = []"
    then show "apply_icons_list readFileSync (Some listFile) names symbolsData = (names, symbolsData)"
      by (simp add: rd)
  next
    assume "set (nonempty_lines contents) \<inter> set names = {}"
    then have "filter (\<lambda>n. n \<in> set names) (nonempty_lines contents) = []"
      by (simp add: no_match_iff)
    then show "apply_icons_list readFileSync (Some listFile) names symbolsData = (names, symbolsData)"
      by (simp add: rd)
  next
    assume "set (nonempty_lines contents) \<inter> set names \<noteq> {}"
    then have "filter (\<lambda>n. n \<in> set names) (nonempty_lines contents) \<noteq> []"
      by (simp add: no_match_iff)
    then show "fst (apply_icons_list readFileSync (Some listFile) names symbolsData)
              = filter (\<lambda>n. n \<in> set names) (nonempty_lines contents)"
      using filter_loop_names [of names symbolsData "nonempty_lines contents" "[]" "[]"]
      by (simp add: rd)
  next
    assume a: "set (nonempty_lines contents) \<inter> set names \<noteq> {}
            \<and> length names \<le> length symbolsData \<and> [] \<notin> set symbolsData"
    then have "filter (\<lambda>n. n \<in> set names) (nonempty_lines contents) \<noteq> []"
      by (simp add: no_match_iff)
    moreover have "snd (filter_loop names symbolsData (nonempty_lines contents) ([], []))
        = [] @ map (\<lambda>n. symbolsData ! nat (indexOf names n))
                  (filter (\<lambda>n. n \<in> set names) (nonempty_lines contents))"
      using a by (intro filter_loop_symbols) simp_all
    ultimately show "snd (apply_icons_list readFileSync (Some listFile) names symbolsData)
              = map (\<lambda>n. symbolsData ! nat (indexOf names n))
                  (filter (\<lambda>n. n \<in> set names) (nonempty_lines contents))"
      by (simp add: rd)
  next
    fix n assume "n \<in> set names"
    then show "names ! nat (indexOf names n) = n" using indexOf_nth by simp
  next
    show "makeSvgs readFileSync writeFile options (Some listFile) names symbolsData validFonts fs
            = generate_all writeFile options
                (fst (apply_icons_list readFileSync (Some listFile) names symbolsData))
                (snd (apply_icons_list readFileSync (Some listFile) names symbolsData)) validFonts fs"
      by (simp add: makeSvgs_def split: prod.splits)
  }
qed


lemma icons_list_selection_example:
  "apply_icons_list (single_file (js ''icons.txt'') [0x0A, 0x0A]) (Some (js ''icons.txt''))
       [js ''a'', js ''b'', js ''c''] [js ''X'', js ''Y'', js ''Z'']
     = ([js ''a'', js ''b'', js ''c''], [js ''X'', js ''Y'', js ''Z''])
   \<and> apply_icons_list (single_file (js ''icons.txt'') (js ''zzz'')) (Some (js ''icons.txt''))
       [js ''a'', js ''b'', js ''c''] [js ''X'', js ''Y'', js ''Z'']
     = ([js ''a'', js ''b'', js ''c''], [js ''X'', js ''Y'', js ''Z''])
   \<and> fst (apply_icons_list
         (single_file (js ''icons.txt'') (js ''c'' @ [0x0A] @ js ''zzz'' @ [0x0A, 0x0D, 0x0A] @ js ''a''))
         (Some (js ''icons.txt'')) [js ''a'', js ''b'', js ''c''] [js ''X'', js ''Y'', js ''Z''])
     = [js ''c'', js ''a'']
   \<and> snd (apply_icons_list
         (single_file (js ''icons.txt'') (js ''c'' @ [0x0A] @ js ''zzz'' @ [0x0A, 0x0D, 0x0A] @ js ''a''))
         (Some (js ''icons.txt'')) [js ''a'', js ''b'', js ''c''] [js ''X'', js ''Y'', js ''Z''])
     = [js ''Z'', js ''X'']"
proof -
  let ?F = "js ''icons.txt''"
  let ?names = "[js ''a'', js ''b'', js ''c'']"
  let ?sd = "[js ''X'', js ''Y'', js ''Z'']"
  let ?c1 = "js ''c'' @ [0x0A] @ js ''zzz'' @ [0x0A, 0x0D, 0x0A] @ js ''a''"
  have F: "?F \<noteq> []" by (simp add: js_def)
  have rd: "single_file ?F contents ?F = Inr contents" for contents
    by (simp add: single_file_def)
  have blank: "nonempty_lines [0x0A, 0x0A] = []"
    by (simp add: nonempty_lines_def)
  have zzz: "set (nonempty_lines (js ''zzz'')) \<inter> set ?names = {}"
    by (simp add: nonempty_lines_def js_def)
  have lines: "nonempty_lines ?c1 = [js ''c'', js ''zzz'', js ''a'']"
    by (simp add: nonempty_lines_def js_def)
  have matched: "filter (\<lambda>n. n \<in> set ?names) [js ''c'', js ''zzz'', js ''a''] = [js ''c'', js ''a'']"
    by (simp add: js_def)
  have some: "set (nonempty_lines ?c1) \<inter> set ?names \<noteq> {}"
    unfolding lines by (simp add: js_def)
  have aligned: "length ?names \<le> length ?sd" "[] \<notin> set ?sd"
    by (simp_all add: js_def)
  have symbols: "map (\<lambda>n. ?sd ! nat (indexOf ?names n)) [js ''c'', js ''a''] = [js ''Z'', js ''X'']"
    by (simp add: js_def)
  note t1 = icons_list_selection [where readFileSync = "single_file ?F [0x0A, 0x0A]"
      and listFile = ?F and contents = "[0x0A, 0x0A]" and names = ?names and symbolsData = ?sd,
      OF F rd]
  note t2 = icons_list_selection [where readFileSync = "single_file ?F (js ''zzz'')"
      and listFile = ?F and contents = "js ''zzz''" and names = ?names and symbolsData = ?sd,
      OF F rd]
  note t3 = icons_list_selection [where readFileSync = "single_file ?F ?c1"
      and listFile = ?F and contents = ?c1 and names = ?names and symbolsData = ?sd,
      OF F rd]
  have r1: "apply_icons_list (single_file ?F [0x0A, 0x0A]) (Some ?F) ?names ?sd = (?names, ?sd)"
    by (rule t1 [THEN conjunct1, THEN mp, OF blank])
  have r2: "apply_icons_list (single_file ?F (js ''zzz'')) (Some ?F) ?names ?sd = (?names, ?sd)"
    by (rule t2 [THEN conjunct2, THEN conjunct1, THEN mp, OF zzz])
  have r3: "fst (apply_icons_list (single_file ?F ?c1) (Some ?F) ?names ?sd)
      = filter (\<lambda>n. n \<in> set ?names) (nonempty_lines ?c1)"
    by (rule t3 [THEN conjunct2, THEN conjunct2, THEN conjunct1, THEN mp, OF some])
  have r4: "snd (apply_icons_list (single_file ?F ?c1) (Some ?F) ?names ?sd)
      = map (\<lambda>n. ?sd ! nat (indexOf ?names n)) (filter (\<lambda>n. n \<in> set ?names) (nonempty_lines ?c1))"
    by (rule t3 [THEN conjunct2, THEN conjunct2, THEN conjunct2, THEN conjunct1, THEN mp,
          OF conjI [OF some conjI [OF aligned]]])
  show ?thesis
    using r1 r2 r3 r4 by (simp only: lines matched symbols simp_thms)
qed


text \<open>
  Claim C8. When some name of the list file is available, the matched names are processed
  with the symbols at their own indices. The code does not do this when the symbols are
  fewer than the names: for the names \<open>a\<close>, \<open>b\<close>, \<open>c\<close>, the symbols \<open>X\<close>, \<open>Y\<close> and the list
  \<open>c\<close>, \<open>a\<close>, the name \<open>c\<close> is kept although it has no symbol, so the selected symbols are one
  short and \<open>c.svg\<close> is drawn from \<open>X\<close>, the symbol of \<open>a\<close>; nothing is written for \<open>a\<close>.
\<close>

theorem short_symbols_misaligned:
  "apply_icons_list (single_file (js ''icons.txt'') (js ''c'' @ [0x0A] @ js ''a''))
       (Some (js ''icons.txt'')) [js ''a'', js ''b'', js ''c''] [js ''X'', js ''Y'']
     = ([js ''c'', js ''a''], [js ''X''])
   \<and> indexOf [js ''a'', js ''b'', js ''c''] (js ''a'') = 0
   \<and> indexOf [js ''a'', js ''b'', js ''c''] (js ''c'') = 2
   \<and> makeSvgs (single_file (js ''icons.txt'') (js ''c'' @ [0x0A] @ js ''a'')) record_write
       (canvas 24 2) (Some (js ''icons.txt'')) [js ''a'', js ''b'', js ''c''] [js ''X'', js ''Y'']
       [(js ''regular'', echo_font)] []
     = Inr [(js ''c.svg'',
             \<lparr>svg_viewBox = [Fin 0, Fin 0, Fin 24, Fin 24], svg_width = Fin 24,
                svg_height = Fin 24, svg_title = js ''c'',
                svg_transform = [Fin 2, Fin 0, Fin 0, Fin 2, Fin 2, Fin 2],
                svg_d = js ''X''\<rparr>)]"
proof (intro conjI)
  have sel: "apply_icons_list (single_file (js ''icons.txt'') (js ''c'' @ [0x0A] @ js ''a''))
       (Some (js ''icons.txt'')) [js ''a'', js ''b'', js ''c''] [js ''X'', js ''Y'']
     = ([js ''c'', js ''a''], [js ''X''])"
    by (simp add: apply_icons_list_def single_file_def nonempty_lines_def js_def Let_def)
  show "apply_icons_list (single_file (js ''icons.txt'') (js ''c'' @ [0x0A] @ js ''a''))
       (Some (js ''icons.txt'')) [js ''a'', js ''b'', js ''c''] [js ''X'', js ''Y'']
     = ([js ''c'', js ''a''], [js ''X''])"
    by (rule sel)
  show "indexOf [js ''a'', js ''b'', js ''c''] (js ''a'') = 0"
    by (simp add: js_def)
  show "indexOf [js ''a'', js ''b'', js ''c''] (js ''c'') = 2"
    by (simp add: js_def)
  have m: "transformMatrix (box 0 0 10 10) (canvas 24 2) = [Fin 2, Fin 0, Fin 0, Fin 2, Fin 2, Fin 2]"
    by (simp add: fit_defs)
  have size: "fontSize (canvas 24 2) = Fin 24" by (simp add: canvas_def)
  have dm: "dMatch (path_markup (js ''X'')) = Some (js ''X'')"
    by (simp add: path_markup_def js_def)
  have gen: "generateSymbolSvg echo_font (js ''X'') (js ''c'') (canvas 24 2) =
     Some \<lparr>svg_viewBox = [Fin 0, Fin 0, Fin 24, Fin 24], svg_width = Fin 24,
           svg_height = Fin 24, svg_title = js ''c'',
           svg_transform = [Fin 2, Fin 0, Fin 0, Fin 2, Fin 2, Fin 2], svg_d = js ''X''\<rparr>"
    using generate_success [where font = echo_font and char = "js ''X''" and g = 1
        and options = "canvas 24 2" and bbox = "box 0 0 10 10"
        and pathElement = "path_markup (js ''X'')" and dContent = "js ''X''" and name = "js ''c''"
        and path = "\<lparr>getBoundingBox = Inr (Some (box 0 0 10 10)),
                      toSVG = (\<lambda>precision. Inr (path_markup (js ''X'')))\<rparr>"]
    by (simp add: echo_font_def dm m size)
  have nm: "createSvgFilename (js ''c'') (js ''regular'') = js ''c.svg''"
    by (simp add: name_defs char_defs)
  have ne: "js ''c'' \<noteq> []" "js ''a'' \<noteq> []" "js ''X'' \<noteq> []" by (simp_all add: js_def)
  show "makeSvgs (single_file (js ''icons.txt'') (js ''c'' @ [0x0A] @ js ''a'')) record_write
       (canvas 24 2) (Some (js ''icons.txt'')) [js ''a'', js ''b'', js ''c''] [js ''X'', js ''Y'']
       [(js ''regular'', echo_font)] []
     = Inr [(js ''c.svg'',
             \<lparr>svg_viewBox = [Fin 0, Fin 0, Fin 24, Fin 24], svg_width = Fin 24,
                svg_height = Fin 24, svg_title = js ''c'',
                svg_transform = [Fin 2, Fin 0, Fin 0, Fin 2, Fin 2, Fin 2],
                svg_d = js ''X''\<rparr>)]"
    unfolding makeSvgs_def sel generate_all_def
    by (simp add: ne gen nm record_write_def)
qed

end
